theory Spec2Isabelle
  imports Main "HOL-Library.Word" "HOL-Library.Sublist"
begin

section \<open>Strings\<close>

text \<open>
  A JavaScript string is a sequence of UTF-16 code units; \<open>charCodeAt\<close> reads one unit
  as a number between 0 and 0xFFFF, and \<open>length\<close> counts units.
\<close>

type_synonym js_string = "16 word list"

definition js :: "string \<Rightarrow> js_string" where
  "js cs = map (\<lambda>c. of_nat (of_char c)) cs"

section \<open>Name validator\<close>

text \<open>
  \<open>isValidCustomElementName\<close> (lines 378 to 468): the names of the \<open>switch\<close>, the
  loop over the codes from index 1 on, and the function.
\<close>

definition reservedNames :: "js_string list" where
  "reservedNames =
     [js ''annotation-xml'', js ''color-profile'', js ''font-face'', js ''font-face-src'',
      js ''font-face-uri'', js ''font-face-format'', js ''font-face-name'',
      js ''missing-glyph'']"

text \<open>
  The body of the \<open>for\<close> loop of \<open>isValidCustomElementName\<close> on one code: \<open>None\<close> is
  \<open>return false\<close>, \<open>Some h\<close> is \<open>continue\<close> with \<open>foundHyphen = h\<close>.
\<close>

definition checkCode :: "nat \<Rightarrow> bool \<Rightarrow> bool option" where
  "checkCode code foundHyphen =
     (if code \<ge> 0x61 \<and> code \<le> 0x7A then Some foundHyphen
      else if code = 0x2D then Some True
      else if code = 0x2E \<or> code = 0x5F \<or> code = 0xB7 then Some foundHyphen
      else if code \<ge> 0x30 \<and> code \<le> 0x39 then Some foundHyphen
      else if code < 0x00C0 then None
      else if code \<ge> 0xC0 \<and> code \<le> 0xD6 then Some foundHyphen
      else if code \<ge> 0xD8 \<and> code \<le> 0xF6 then Some foundHyphen
      else if code \<ge> 0xF8 \<and> code \<le> 0x37D then Some foundHyphen
      else if code \<ge> 0x37F \<and> code \<le> 0x1FFF then Some foundHyphen
      else if code \<ge> 0x200C \<and> code \<le> 0x200D then Some foundHyphen
      else if code \<ge> 0x203F \<and> code \<le> 0x2040 then Some foundHyphen
      else if code \<ge> 0x2070 \<and> code \<le> 0x218F then Some foundHyphen
      else if code \<ge> 0x2C00 \<and> code \<le> 0x2FEF then Some foundHyphen
      else if code \<ge> 0x3001 \<and> code \<le> 0xD7FF then Some foundHyphen
      else if code \<ge> 0xF900 \<and> code \<le> 0xFDCF then Some foundHyphen
      else if code \<ge> 0xFDF0 \<and> code \<le> 0xFFFD then Some foundHyphen
      else if code \<ge> 0x10000 \<and> code \<le> 0xEFFFF then Some foundHyphen
      else None)"

text \<open>The loop from index 1 on, over the units that remain, carrying \<open>foundHyphen\<close>.\<close>

fun nameLoop :: "js_string \<Rightarrow> bool \<Rightarrow> bool" where
  "nameLoop [] foundHyphen = foundHyphen"
| "nameLoop (u # us) foundHyphen =
     (case checkCode (unat u) foundHyphen of
        None \<Rightarrow> False
      | Some h \<Rightarrow> nameLoop us h)"

definition isValidCustomElementName :: "js_string \<Rightarrow> bool" where
  "isValidCustomElementName localName =
     (if localName \<in> set reservedNames then False
      else if length localName < 2 then False
      else (let firstCode = unat (hd localName) in
            if firstCode < 0x61 \<or> firstCode > 0x7A then False
            else nameLoop (tl localName) False))"

subsection \<open>The validator as the specification words it\<close>

text \<open>
  The specification's rule, over a name given as its sequence of characters, each
  character a number: the code points of the name.
\<close>

definition pcenChar :: "nat \<Rightarrow> bool" where
  "pcenChar c \<longleftrightarrow>
     (0x61 \<le> c \<and> c \<le> 0x7A) \<or> (0x30 \<le> c \<and> c \<le> 0x39) \<or>
     c = 0x2E \<or> c = 0x5F \<or> c = 0xB7 \<or> c = 0x2D \<or>
     (0xC0 \<le> c \<and> c \<le> 0xD6) \<or> (0xD8 \<le> c \<and> c \<le> 0xF6) \<or>
     (0xF8 \<le> c \<and> c \<le> 0x37D) \<or> (0x37F \<le> c \<and> c \<le> 0x1FFF) \<or>
     (0x200C \<le> c \<and> c \<le> 0x200D) \<or> (0x203F \<le> c \<and> c \<le> 0x2040) \<or>
     (0x2070 \<le> c \<and> c \<le> 0x218F) \<or> (0x2C00 \<le> c \<and> c \<le> 0x2FEF) \<or>
     (0x3001 \<le> c \<and> c \<le> 0xD7FF) \<or> (0xF900 \<le> c \<and> c \<le> 0xFDCF) \<or>
     (0xFDF0 \<le> c \<and> c \<le> 0xFFFD) \<or> (0x10000 \<le> c \<and> c \<le> 0xEFFFF)"

definition specValidName :: "nat list \<Rightarrow> bool" where
  "specValidName cs \<longleftrightarrow>
     cs \<notin> set (map (map unat) reservedNames) \<and>
     length cs \<ge> 2 \<and>
     0x61 \<le> hd cs \<and> hd cs \<le> 0x7A \<and>
     list_all pcenChar (tl cs) \<and>
     0x2D \<in> set (tl cs)"

text \<open>
  The code points of a string: a high surrogate followed by a low surrogate is one
  supplementary character, every other unit is a character of its own.
\<close>

fun codePoints :: "js_string \<Rightarrow> nat list" where
  "codePoints [] = []"
| "codePoints [u] = [unat u]"
| "codePoints (u # v # us) =
     (if 0xD800 \<le> unat u \<and> unat u \<le> 0xDBFF \<and> 0xDC00 \<le> unat v \<and> unat v \<le> 0xDFFF
      then (0x10000 + (unat u - 0xD800) * 0x400 + (unat v - 0xDC00)) # codePoints us
      else unat u # codePoints (v # us))"

section \<open>Data model\<close>

text \<open>
  What is thrown: the errors the module makes, and what code of the page throws, which
  may be any value. \<open>UserError\<close> is an object or another truthy value, \<open>FalsyValue\<close> one of
  the falsy ones (\<open>undefined\<close>, \<open>null\<close>, \<open>false\<close>, 0, NaN, the empty string); the
  number tells the values apart. \<open>upgradeElement\<close> and \<open>define\<close> keep what they catch in
  a variable and throw it again after \<open>if (caught)\<close>, that is, when it is truthy.
\<close>

datatype error =
  TypeError | SyntaxError | NotSupportedError | InvalidStateError | ReferenceError
  | UserError nat | FalsyValue nat

fun truthy :: "error \<Rightarrow> bool" where
  "truthy (FalsyValue n) = False"
| "truthy e = True"

type_synonym elem = nat

datatype ce_state = CE_STATE_FAILED | CE_STATE_CUSTOM | CE_STATE_UNDEFINED

datatype callback_name =
  CE_CALLBACK_CONNECTED | CE_CALLBACK_DISCONNECTED | CE_CALLBACK_ADOPTED
  | CE_CALLBACK_ATTRIBUTE_CHANGED

datatype js_value = Null | StringValue js_string | ObjectRef nat

record attribute =
  attr_localName :: js_string
  attr_value :: js_string
  attr_namespaceURI :: "js_string option"

text \<open>A function of the page is named by a number; \<open>None\<close> is \<open>null\<close>.\<close>

record lifecycle =
  connectedCallback :: "nat option"
  disconnectedCallback :: "nat option"
  adoptedCallback :: "nat option"
  attributeChangedCallback :: "nat option"

fun callbackOf :: "lifecycle \<Rightarrow> callback_name \<Rightarrow> nat option" where
  "callbackOf l CE_CALLBACK_CONNECTED = connectedCallback l"
| "callbackOf l CE_CALLBACK_DISCONNECTED = disconnectedCallback l"
| "callbackOf l CE_CALLBACK_ADOPTED = adoptedCallback l"
| "callbackOf l CE_CALLBACK_ATTRIBUTE_CHANGED = attributeChangedCallback l"

datatype html_interface = HTMLElement | BuiltInInterface nat

text \<open>
  A definition object. \<open>def_id\<close> is its identity; its one mutable member, the
  construction stack, is kept in the runtime state under that identity.
\<close>

record ce_definition =
  def_id :: nat
  def_name :: js_string
  def_localName :: js_string
  def_constructor :: nat
  def_observedAttributes :: "js_string list"
  def_lifecycleCallbacks :: lifecycle
  def_htmlConstructor :: html_interface

datatype reaction =
  UpgradeReaction ce_definition
  | CallbackReaction nat "js_value list"

text \<open>
  The private state object of an element (\<open>element._custom\<close>). Every member may be
  missing: the source creates the object with different member sets at different places.
\<close>

record elem_state =
  customElementState :: "ce_state option"
  customElementDefinition :: "ce_definition option"
  reactionQueue :: "reaction list option"
  isValue :: "js_string option"

datatype stack_entry = ElementEntry elem | AlreadyConstructedMarker

datatype task = DrainBackupElementQueue | ResolveWhenDefined js_string

record node =
  node_elem :: elem
  node_isElement :: bool
  node_namespaceURI :: "js_string option"
  node_localName :: js_string

text \<open>
  The state the module works on. \<open>installed\<close> tells whether \<open>window._custom\<close> holds the
  installation object; the next three members are that object's. \<open>microtasks\<close> is the
  queue of \<open>$microtask\<close>, \<open>reported\<close> what \<open>$utils.reportError\<close> received, in order.
  \<open>definitions\<close>, \<open>elementDefinitionIsRunning\<close> and \<open>whenDefinedPromiseMap\<close> are the
  registry's private state (the map holds \<open>True\<close> where an entry object is stored).
  The last members are what the module reads from the host: the attributes of an element,
  whether it is connected, whether the document is still loading, the nodes of the
  document in tree order, and the global \<open>testElement\<close> that \<open>define\<close> reads (the
  interface of its prototype when the name is bound).
\<close>

record rt =
  installed :: bool
  customElementsReactionStack :: "elem list list"
  backupElementQueue :: "elem list"
  processingBackupElementQueue :: bool
  microtasks :: "task list"
  reported :: "error list"
  priv :: "elem \<Rightarrow> elem_state option"
  constructionStack :: "nat \<Rightarrow> stack_entry list"
  definitions :: "ce_definition list"
  elementDefinitionIsRunning :: bool
  whenDefinedPromiseMap :: "js_string \<Rightarrow> bool"
  attributes :: "elem \<Rightarrow> attribute list"
  isConnected :: "elem \<Rightarrow> bool"
  documentLoading :: bool
  documentNodes :: "node list"
  testElement :: "html_interface option"

text \<open>
  The code of the page, which the module calls and which may change the state and throw:
  \<open>construct c\<close> is \<open>new\<close> on the constructor \<open>c\<close> (the object it yields, or the
  error), \<open>callback f\<close> a lifecycle callback applied to an element and its arguments,
  \<open>prototypeProperty c k\<close> the read of a callback member of the prototype of \<open>c\<close>
  (the function found there, if it is one), \<open>observedAttributesOf c\<close> the read and copy
  of the constructor's \<open>observedAttributes\<close> (\<open>None\<close> when it is not set).
\<close>

record user_code =
  construct :: "nat \<Rightarrow> rt \<Rightarrow> (error + elem) \<times> rt"
  callback :: "nat \<Rightarrow> elem \<Rightarrow> js_value list \<Rightarrow> rt \<Rightarrow> error option \<times> rt"
  prototypeProperty :: "nat \<Rightarrow> callback_name \<Rightarrow> rt \<Rightarrow> (error + nat option) \<times> rt"
  observedAttributesOf :: "nat \<Rightarrow> rt \<Rightarrow> (error + js_string list option) \<times> rt"

definition htmlNamespace :: js_string where
  "htmlNamespace = js ''http://www.w3.org/1999/xhtml''"

definition setPrivateState :: "elem \<Rightarrow> elem_state \<Rightarrow> rt \<Rightarrow> rt" where
  "setPrivateState element state s = s\<lparr>priv := (priv s)(element \<mapsto> state)\<rparr>"

definition reportError :: "error \<Rightarrow> rt \<Rightarrow> rt" where
  "reportError e s = s\<lparr>reported := reported s @ [e]\<rparr>"

definition shouldNotUpgrade :: "elem_state \<Rightarrow> bool" where
  "shouldNotUpgrade privateState \<longleftrightarrow>
     customElementState privateState = Some CE_STATE_CUSTOM \<or>
     customElementState privateState = Some CE_STATE_FAILED"

text \<open>
  \<open>uninstall\<close> (lines 111 to 126) takes the installation object off the window. The
  object itself lives on in the closure of a drain microtask that is still waiting (lines
  727 to 732), so its members stay in the state. The other steps of \<open>uninstall\<close> give
  the host its constructors and methods back, which are not part of this state.
\<close>

definition uninstall :: "rt \<Rightarrow> rt" where
  "uninstall s = (if \<not> installed s then s else s\<lparr>installed := False\<rparr>)"

section \<open>Reaction queue engine\<close>

text \<open>
  \<open>enqueueElementOnAppropriateElementQueue\<close> (lines 709 to 738). The top of the stack
  is the last queue of the list.
\<close>

definition enqueueElementOnAppropriateElementQueue :: "elem \<Rightarrow> rt \<Rightarrow> rt" where
  "enqueueElementOnAppropriateElementQueue element s =
     (if \<not> installed s then s
      else if customElementsReactionStack s = [] then
        (let s1 = s\<lparr>backupElementQueue := backupElementQueue s @ [element]\<rparr> in
         if processingBackupElementQueue s1 then s1
         else s1\<lparr>processingBackupElementQueue := True,
                 microtasks := microtasks s1 @ [DrainBackupElementQueue]\<rparr>)
      else s\<lparr>customElementsReactionStack :=
                 butlast (customElementsReactionStack s)
                 @ [last (customElementsReactionStack s) @ [element]]\<rparr>)"

text \<open>
  \<open>enqueueCallbackReaction\<close> and \<open>enqueueUpgradeReaction\<close> (lines 740 to 767).
  Reading a member of a missing state object or of a null definition throws a TypeError,
  as does a method call on a missing reaction queue.
\<close>

definition enqueueCallbackReaction ::
    "elem \<Rightarrow> callback_name \<Rightarrow> js_value list \<Rightarrow> rt \<Rightarrow> error option \<times> rt" where
  "enqueueCallbackReaction element callbackName args s =
     (case priv s element of
        None \<Rightarrow> (Some TypeError, s)
      | Some elementState \<Rightarrow>
         (case customElementDefinition elementState of
            None \<Rightarrow> (Some TypeError, s)
          | Some defn \<Rightarrow>
             (case callbackOf (def_lifecycleCallbacks defn) callbackName of
                None \<Rightarrow> (None, s)
              | Some cb \<Rightarrow>
                 if callbackName = CE_CALLBACK_ATTRIBUTE_CHANGED \<and>
                    (case args of
                       StringValue attributeName # _ \<Rightarrow>
                         attributeName \<notin> set (def_observedAttributes defn)
                     | _ \<Rightarrow> True)
                 then (None, s)
                 else
                   (let queue = (case reactionQueue elementState of
                                   None \<Rightarrow> [] | Some q \<Rightarrow> q);
                        s1 = setPrivateState element
                               (elementState\<lparr>reactionQueue :=
                                  Some (queue @ [CallbackReaction cb args])\<rparr>) s
                    in (None, enqueueElementOnAppropriateElementQueue element s1)))))"

definition enqueueUpgradeReaction ::
    "elem \<Rightarrow> ce_definition \<Rightarrow> rt \<Rightarrow> error option \<times> rt" where
  "enqueueUpgradeReaction element defn s =
     (let elementState =
            (case priv s element of
               Some es \<Rightarrow> es
             | None \<Rightarrow> \<lparr>customElementState = None, customElementDefinition = None,
                        reactionQueue = Some [], isValue = None\<rparr>);
          elementState1 = elementState\<lparr>customElementDefinition := Some defn\<rparr>
      in case reactionQueue elementState1 of
           None \<Rightarrow> (Some TypeError, setPrivateState element elementState1 s)
         | Some q \<Rightarrow>
            (None, enqueueElementOnAppropriateElementQueue element
                     (setPrivateState element
                        (elementState1\<lparr>reactionQueue := Some (q @ [UpgradeReaction defn])\<rparr>)
                        s)))"

section \<open>Upgrade algorithm\<close>

definition attributeChangedArgs :: "attribute \<Rightarrow> js_value list" where
  "attributeChangedArgs a =
     [StringValue (attr_localName a), Null, StringValue (attr_value a),
      (case attr_namespaceURI a of None \<Rightarrow> Null | Some n \<Rightarrow> StringValue n)]"

text \<open>
  The loop of \<open>upgradeElement\<close> over the attributes of the element (lines 647 to 653).
  \<open>$Attr.patchAttributeNodeIfNeeded\<close>, which the loop calls on each attribute, is taken
  to return and to leave the state of the module alone.
\<close>

fun enqueueAttributeReactions ::
    "elem \<Rightarrow> attribute list \<Rightarrow> rt \<Rightarrow> error option \<times> rt" where
  "enqueueAttributeReactions element [] s = (None, s)"
| "enqueueAttributeReactions element (a # as) s =
     (case enqueueCallbackReaction element CE_CALLBACK_ATTRIBUTE_CHANGED
             (attributeChangedArgs a) s of
        (Some e, s1) \<Rightarrow> (Some e, s1)
      | (None, s1) \<Rightarrow> enqueueAttributeReactions element as s1)"

text \<open>
  The construction stack of a definition (\<open>push\<close> at line 657, \<open>pop\<close> at line 672),
  and what the \<open>try\<close> block (lines 659 to 664) hands to the \<open>catch\<close>: the error of
  the constructor, or an InvalidStateError when it yields another object.
\<close>

definition pushConstructionStack :: "ce_definition \<Rightarrow> stack_entry \<Rightarrow> rt \<Rightarrow> rt" where
  "pushConstructionStack defn entry s =
     s\<lparr>constructionStack :=
         (constructionStack s)(def_id defn := constructionStack s (def_id defn) @ [entry])\<rparr>"

definition popConstructionStack :: "ce_definition \<Rightarrow> rt \<Rightarrow> rt" where
  "popConstructionStack defn s =
     s\<lparr>constructionStack :=
         (constructionStack s)(def_id defn := butlast (constructionStack s (def_id defn)))\<rparr>"

definition constructionError :: "(error + elem) \<Rightarrow> elem \<Rightarrow> error option" where
  "constructionError constructResult element =
     (case constructResult of
        Inl error \<Rightarrow> Some error
      | Inr obj \<Rightarrow> if obj \<noteq> element then Some InvalidStateError else None)"

text \<open>The last line of \<open>upgradeElement\<close> (line 676).\<close>

definition markCustom :: "elem \<Rightarrow> rt \<Rightarrow> rt" where
  "markCustom element s =
     (case priv s element of
        None \<Rightarrow> s
      | Some elementState \<Rightarrow>
          setPrivateState element
            (elementState\<lparr>customElementState := Some CE_STATE_CUSTOM\<rparr>) s)"

text \<open>
  The steps of \<open>upgradeElement\<close> from the \<open>try\<close> statement on (lines 658 to 676), the
  element being on the construction stack. The state object is the one the element carries
  (no code of the module detaches it); were it gone, the writes of the source would reach
  an object nobody reads. In the \<open>catch\<close> block the call of \<open>splice\<close> on a missing
  reaction queue throws out of the block, past the \<open>pop\<close>. After the \<open>pop\<close> the
  error caught is thrown again if it is truthy (line 673); a falsy one is dropped, and
  line 676 then marks the element custom, as it does when nothing was thrown.
\<close>

definition constructSteps ::
    "user_code \<Rightarrow> elem \<Rightarrow> ce_definition \<Rightarrow> rt \<Rightarrow> error option \<times> rt" where
  "constructSteps U element defn s =
     (case construct U (def_constructor defn) s of
        (constructResult, s1) \<Rightarrow>
          (case (case constructionError constructResult element of
                   None \<Rightarrow> (None, s1)
                 | Some error \<Rightarrow>
                    (case priv s1 element of
                       None \<Rightarrow> (None, s1)
                     | Some elementState \<Rightarrow>
                        (let failed = elementState\<lparr>customElementState := Some CE_STATE_FAILED,
                                                   customElementDefinition := None\<rparr>
                         in case reactionQueue elementState of
                              None \<Rightarrow> (Some TypeError, setPrivateState element failed s1)
                            | Some q \<Rightarrow>
                               (None,
                                setPrivateState element (failed\<lparr>reactionQueue := Some []\<rparr>)
                                  s1)))) of
             (Some thrown, s2) \<Rightarrow> (Some thrown, s2)
           | (None, s2) \<Rightarrow>
               (let s3 = popConstructionStack defn s2
                in case constructionError constructResult element of
                     Some caught \<Rightarrow>
                       if truthy caught then (Some caught, s3)
                       else (None, markCustom element s3)
                   | None \<Rightarrow> (None, markCustom element s3))))"

text \<open>
  The steps before (lines 647 to 657): the backlog of reactions, then the push; and
  \<open>upgradeElement\<close> as a whole (lines 635 to 677).
\<close>

definition enqueueBacklog :: "elem \<Rightarrow> rt \<Rightarrow> error option \<times> rt" where
  "enqueueBacklog element s =
     (case enqueueAttributeReactions element (attributes s element) s of
        (Some e, s1) \<Rightarrow> (Some e, s1)
      | (None, s1) \<Rightarrow>
          if isConnected s1 element
          then enqueueCallbackReaction element CE_CALLBACK_CONNECTED [] s1
          else (None, s1))"

definition upgradeSteps ::
    "user_code \<Rightarrow> elem \<Rightarrow> ce_definition \<Rightarrow> rt \<Rightarrow> error option \<times> rt" where
  "upgradeSteps U element defn s =
     (case enqueueBacklog element s of
        (Some e, s1) \<Rightarrow> (Some e, s1)
      | (None, s1) \<Rightarrow>
          constructSteps U element defn
            (pushConstructionStack defn (ElementEntry element) s1))"

definition upgradeElement ::
    "user_code \<Rightarrow> elem \<Rightarrow> ce_definition \<Rightarrow> rt \<Rightarrow> error option \<times> rt" where
  "upgradeElement U element defn s =
     (case priv s element of
        None \<Rightarrow>
          upgradeSteps U element defn
            (setPrivateState element
               \<lparr>customElementState = None, customElementDefinition = Some defn,
                reactionQueue = Some [], isValue = None\<rparr> s)
      | Some elementState \<Rightarrow>
          if shouldNotUpgrade elementState then (None, s)
          else upgradeSteps U element defn s)"

section \<open>Invoking reactions\<close>

text \<open>The \<open>switch\<close> of \<open>invokeReactions\<close> on the type of a reaction (lines 778 to 785).\<close>

definition invokeReaction ::
    "user_code \<Rightarrow> elem \<Rightarrow> reaction \<Rightarrow> rt \<Rightarrow> error option \<times> rt" where
  "invokeReaction U element r s =
     (case r of
        UpgradeReaction defn \<Rightarrow> upgradeElement U element defn s
      | CallbackReaction cb args \<Rightarrow> callback U cb element args s)"

text \<open>
  The \<open>while\<close> loop over the reaction queue of one element (lines 773 to 790), with its
  \<open>try\<close> and \<open>catch\<close> around each reaction. The loop ends only when the
  queue is empty, and code of the page can refill it for ever, so the model counts steps:
  \<open>None\<close> says that the steps given did not suffice.
\<close>

fun invokeElementReactions ::
    "user_code \<Rightarrow> nat \<Rightarrow> elem \<Rightarrow> rt \<Rightarrow> (error option \<times> rt) option" where
  "invokeElementReactions U 0 element s = None"
| "invokeElementReactions U (Suc n) element s =
     (case priv s element of
        None \<Rightarrow> Some (Some TypeError, s)
      | Some elementState \<Rightarrow>
         (case reactionQueue elementState of
            None \<Rightarrow> Some (Some TypeError, s)
          | Some [] \<Rightarrow> Some (None, s)
          | Some (r # rs) \<Rightarrow>
             (case invokeReaction U element r
                     (setPrivateState element (elementState\<lparr>reactionQueue := Some rs\<rparr>) s) of
                (Some error, s1) \<Rightarrow> invokeElementReactions U n element (reportError error s1)
              | (None, s1) \<Rightarrow> invokeElementReactions U n element s1)))"

text \<open>
  \<open>invokeReactions\<close> (lines 769 to 792). The queue it is given is either the backup
  element queue, an array that stays reachable and grows while the loop runs, or a queue
  popped off the stack, which nothing else refers to. The \<open>for\<close> loop compares its index
  with the length of the queue at every turn; \<open>invokeReactionsFrom\<close> is the loop from
  index \<open>i\<close> on.
\<close>

datatype queue_ref = BackupQueue | PoppedQueue "elem list"

definition queueOf :: "queue_ref \<Rightarrow> rt \<Rightarrow> elem list" where
  "queueOf q s = (case q of BackupQueue \<Rightarrow> backupElementQueue s | PoppedQueue es \<Rightarrow> es)"

fun invokeReactionsFrom ::
    "user_code \<Rightarrow> nat \<Rightarrow> queue_ref \<Rightarrow> nat \<Rightarrow> rt \<Rightarrow> (error option \<times> rt) option" where
  "invokeReactionsFrom U 0 queue i s = None"
| "invokeReactionsFrom U (Suc n) queue i s =
     (if i < length (queueOf queue s) then
        (case invokeElementReactions U n (queueOf queue s ! i) s of
           None \<Rightarrow> None
         | Some (Some error, s1) \<Rightarrow> Some (Some error, s1)
         | Some (None, s1) \<Rightarrow> invokeReactionsFrom U n queue (i + 1) s1)
      else Some (None, s))"

definition invokeReactions ::
    "user_code \<Rightarrow> nat \<Rightarrow> queue_ref \<Rightarrow> rt \<Rightarrow> (error option \<times> rt) option" where
  "invokeReactions U n queue s = invokeReactionsFrom U n queue 0 s"

text \<open>
  The microtask that \<open>enqueueElementOnAppropriateElementQueue\<close> schedules (lines 727 to
  732).
\<close>

definition drainBackupElementQueue ::
    "user_code \<Rightarrow> nat \<Rightarrow> rt \<Rightarrow> (error option \<times> rt) option" where
  "drainBackupElementQueue U n s =
     (case invokeReactions U n BackupQueue s of
        None \<Rightarrow> None
      | Some (Some error, s1) \<Rightarrow> Some (Some error, s1)
      | Some (None, s1) \<Rightarrow> Some (None, s1\<lparr>processingBackupElementQueue := False\<rparr>))"

text \<open>
  \<open>executeCEReactions\<close> (lines 794 to 804): there is no \<open>try\<close> around the callback,
  so an error of the callback leaves the function at once.
\<close>

definition executeCEReactions ::
    "user_code \<Rightarrow> nat \<Rightarrow> (rt \<Rightarrow> (error + 'a) \<times> rt) \<Rightarrow> rt \<Rightarrow> ((error + 'a) \<times> rt) option" where
  "executeCEReactions U n work s =
     (if installed s then
        (case work (s\<lparr>customElementsReactionStack := customElementsReactionStack s @ [[]]\<rparr>) of
           (Inl error, s1) \<Rightarrow> Some (Inl error, s1)
         | (Inr result, s1) \<Rightarrow>
            (case customElementsReactionStack s1 of
               [] \<Rightarrow> Some (Inl TypeError, s1)
             | _ # _ \<Rightarrow>
                (case invokeReactions U n
                        (PoppedQueue (last (customElementsReactionStack s1)))
                        (s1\<lparr>customElementsReactionStack :=
                              butlast (customElementsReactionStack s1)\<rparr>) of
                   None \<Rightarrow> None
                 | Some (Some error, s2) \<Rightarrow> Some (Inl error, s2)
                 | Some (None, s2) \<Rightarrow> Some (Inr result, s2))))
      else Some (work s))"

section \<open>Registry\<close>

text \<open>
  What \<open>define\<close> reads off its \<open>constructor\<close> argument without running code of the
  page: its identity, the identity of \<open>constructor.prototype.constructor\<close>, and whether
  the prototype is an instance of \<open>Object\<close>.
\<close>

record constructor_ref =
  ctor_id :: nat
  ctor_prototype_constructor :: nat
  ctor_prototype_instanceof_Object :: bool

text \<open>
  \<open>getCallback\<close> (lines 814 to 820) and the \<open>try\<close> statement of \<open>define\<close> (lines
  530 to 549): the callbacks, then the observed attributes. The result is what the
  \<open>catch\<close> block caught, if anything, and the values that the variables
  \<open>lifecycleCallbacks\<close> and \<open>observedAttributes\<close> hold after the statement: when a
  read throws, the callbacks read before it are there and the others are missing.
\<close>

definition getCallback ::
    "user_code \<Rightarrow> constructor_ref \<Rightarrow> callback_name \<Rightarrow> rt \<Rightarrow> (error + nat option) \<times> rt" where
  "getCallback U ctor callbackName s = prototypeProperty U (ctor_id ctor) callbackName s"

definition readCallbacks ::
    "user_code \<Rightarrow> constructor_ref \<Rightarrow> rt
       \<Rightarrow> (error option \<times> lifecycle \<times> js_string list) \<times> rt" where
  "readCallbacks U ctor s =
     (let none = \<lparr>connectedCallback = None, disconnectedCallback = None,
                   adoptedCallback = None, attributeChangedCallback = None\<rparr>
      in if \<not> ctor_prototype_instanceof_Object ctor then ((Some TypeError, none, []), s)
      else case getCallback U ctor CE_CALLBACK_CONNECTED s of
        (Inl e, s1) \<Rightarrow> ((Some e, none, []), s1)
      | (Inr c1, s1) \<Rightarrow>
      (case getCallback U ctor CE_CALLBACK_DISCONNECTED s1 of
        (Inl e, s2) \<Rightarrow> ((Some e, none\<lparr>connectedCallback := c1\<rparr>, []), s2)
      | (Inr c2, s2) \<Rightarrow>
      (case getCallback U ctor CE_CALLBACK_ADOPTED s2 of
        (Inl e, s3) \<Rightarrow>
          ((Some e, none\<lparr>connectedCallback := c1, disconnectedCallback := c2\<rparr>, []), s3)
      | (Inr c3, s3) \<Rightarrow>
      (case getCallback U ctor CE_CALLBACK_ATTRIBUTE_CHANGED s3 of
        (Inl e, s4) \<Rightarrow>
          ((Some e, none\<lparr>connectedCallback := c1, disconnectedCallback := c2,
                        adoptedCallback := c3\<rparr>, []), s4)
      | (Inr c4, s4) \<Rightarrow>
         (let lifecycleCallbacks =
                \<lparr>connectedCallback = c1, disconnectedCallback = c2,
                 adoptedCallback = c3, attributeChangedCallback = c4\<rparr>
          in case c4 of
               None \<Rightarrow> ((None, lifecycleCallbacks, []), s4)
             | Some _ \<Rightarrow>
                (case observedAttributesOf U (ctor_id ctor) s4 of
                   (Inl e, s5) \<Rightarrow> ((Some e, lifecycleCallbacks, []), s5)
                 | (Inr None, s5) \<Rightarrow> ((None, lifecycleCallbacks, []), s5)
                 | (Inr (Some observed), s5) \<Rightarrow>
                     ((None, lifecycleCallbacks, observed), s5)))))))"

text \<open>
  The sweep of \<open>define\<close> over the nodes of the document (lines 571 to 586). \<open>extensionOf\<close> is
  \<open>options.extends\<close>, \<open>None\<close> when there are no options or it is null or undefined.
\<close>

fun upgradeSweep ::
    "ce_definition \<Rightarrow> js_string option \<Rightarrow> node list \<Rightarrow> rt \<Rightarrow> error option \<times> rt" where
  "upgradeSweep defn extensionOf [] s = (None, s)"
| "upgradeSweep defn extensionOf (n # ns) s =
     (if node_isElement n \<and> node_namespaceURI n = Some htmlNamespace \<and>
         node_localName n = def_localName defn
      then
        (case (case extensionOf of
                 None \<Rightarrow> Inr True
               | Some ext \<Rightarrow>
                  if ext = [] then Inr True
                  else (case priv s (node_elem n) of
                          None \<Rightarrow> Inl TypeError
                        | Some nodeState \<Rightarrow> Inr (isValue nodeState = Some ext))) of
           Inl e \<Rightarrow> (Some e, s)
         | Inr False \<Rightarrow> upgradeSweep defn extensionOf ns s
         | Inr True \<Rightarrow>
            (case enqueueUpgradeReaction (node_elem n) defn s of
               (Some e, s1) \<Rightarrow> (Some e, s1)
             | (None, s1) \<Rightarrow> upgradeSweep defn extensionOf ns s1))
      else upgradeSweep defn extensionOf ns s)"

text \<open>
  The function that \<open>define\<close> hands to \<open>executeCEReactions\<close> (lines 501 to 594), then
  \<open>define\<close> and \<open>get\<close> (lines 597 to 606). Reading the global \<open>testElement\<close>, which
  no line of the module binds, throws a ReferenceError when nothing else binds it. What
  the \<open>try\<close> statement caught is thrown again when it is truthy (line 551); otherwise
  the definition is made of what the variables hold.
\<close>

definition defineBody ::
    "user_code \<Rightarrow> js_string \<Rightarrow> constructor_ref \<Rightarrow> js_string option \<Rightarrow> rt
       \<Rightarrow> (error + unit) \<times> rt" where
  "defineBody U name ctor extensionOf s =
     (if ctor_id ctor \<noteq> ctor_prototype_constructor ctor then (Inl TypeError, s)
      else if \<not> isValidCustomElementName name then (Inl SyntaxError, s)
      else
        (case (case extensionOf of
                 None \<Rightarrow> Inr (name, HTMLElement)
               | Some ext \<Rightarrow>
                  if isValidCustomElementName ext then Inl NotSupportedError
                  else (case testElement s of
                          None \<Rightarrow> Inl ReferenceError
                        | Some interface \<Rightarrow> Inr (ext, interface))) of
           Inl e \<Rightarrow> (Inl e, s)
         | Inr (localName, htmlConstructor) \<Rightarrow>
            if elementDefinitionIsRunning s then (Inl NotSupportedError, s)
            else
              (case readCallbacks U ctor (s\<lparr>elementDefinitionIsRunning := True\<rparr>) of
                 ((caught, lifecycleCallbacks, observedAttributes), s1) \<Rightarrow>
                   (let s2 = s1\<lparr>elementDefinitionIsRunning := False\<rparr>
                    in case (case caught of
                               None \<Rightarrow> None
                             | Some error \<Rightarrow> if truthy error then Some error else None) of
                         Some error \<Rightarrow> (Inl error, s2)
                       | None \<Rightarrow>
                          (let defn = \<lparr>def_id = length (definitions s2),
                                       def_name = name,
                                       def_localName = localName,
                                       def_constructor = ctor_id ctor,
                                       def_observedAttributes = observedAttributes,
                                       def_lifecycleCallbacks = lifecycleCallbacks,
                                       def_htmlConstructor = htmlConstructor\<rparr>;
                               s3 = s2\<lparr>definitions := definitions s2 @ [defn]\<rparr>
                           in case (if documentLoading s3 then (None, s3)
                                    else upgradeSweep defn extensionOf (documentNodes s3) s3) of
                                (Some e, s4) \<Rightarrow> (Inl e, s4)
                              | (None, s4) \<Rightarrow>
                                 (Inr (),
                                  if whenDefinedPromiseMap s4 name
                                  then s4\<lparr>microtasks :=
                                            microtasks s4 @ [ResolveWhenDefined name]\<rparr>
                                  else s4))))))"

definition CustomElementRegistry_define ::
    "user_code \<Rightarrow> nat \<Rightarrow> js_string \<Rightarrow> constructor_ref \<Rightarrow> js_string option \<Rightarrow> rt
       \<Rightarrow> ((error + unit) \<times> rt) option" where
  "CustomElementRegistry_define U n name ctor extensionOf s =
     executeCEReactions U n (defineBody U name ctor extensionOf) s"

definition CustomElementRegistry_get :: "js_string \<Rightarrow> rt \<Rightarrow> nat option" where
  "CustomElementRegistry_get name s =
     map_option def_constructor (find (\<lambda>d. def_name d = name) (definitions s))"

section \<open>Upgrade attempts and element creation\<close>

text \<open>
  What these functions read from the host and cannot be told from the state of the
  module: whether the document has a window, the element that the original
  \<open>createElement\<close> (or \<open>createElementNS\<close>) hands out, whether an object is an instance of
  \<open>HTMLElement\<close>, and whether an object has no children, no parent, the document as its
  owner, the HTML namespace and the given local name.
\<close>

record host =
  hasDefaultView :: bool
  createdElement :: elem
  isHTMLElement :: "elem \<Rightarrow> bool"
  isPristine :: "elem \<Rightarrow> js_string \<Rightarrow> bool"

text \<open>
  \<open>lookupCustomElementDefinition\<close> (lines 470 to 488), \<open>tryToUpgradeElementSync\<close> and
  \<open>tryToUpgradeElement\<close> (lines 679 to 707); the namespace and the local name are those of
  the element.
\<close>

definition lookupCustomElementDefinition ::
    "host \<Rightarrow> js_string option \<Rightarrow> js_string \<Rightarrow> js_string option \<Rightarrow> rt
       \<Rightarrow> ce_definition option" where
  "lookupCustomElementDefinition H nameSpace localName is s =
     (if nameSpace \<noteq> Some htmlNamespace then None
      else if \<not> hasDefaultView H then None
      else find (\<lambda>d. def_localName d = localName \<and>
                      (def_name d = localName \<or> Some (def_name d) = is))
             (definitions s))"

definition tryToUpgradeElementSync ::
    "user_code \<Rightarrow> host \<Rightarrow> js_string option \<Rightarrow> js_string \<Rightarrow> elem \<Rightarrow> rt
       \<Rightarrow> error option \<times> rt" where
  "tryToUpgradeElementSync U H nameSpace localName element s =
     (case priv s element of
        Some elementState \<Rightarrow>
          if shouldNotUpgrade elementState then (None, s)
          else (case lookupCustomElementDefinition H nameSpace localName
                       (isValue elementState) s of
                  None \<Rightarrow> (None, s)
                | Some defn \<Rightarrow> upgradeElement U element defn s)
      | None \<Rightarrow>
          (case lookupCustomElementDefinition H nameSpace localName None s of
             None \<Rightarrow> (None, s)
           | Some defn \<Rightarrow> upgradeElement U element defn s))"

definition tryToUpgradeElement ::
    "host \<Rightarrow> js_string option \<Rightarrow> js_string \<Rightarrow> elem \<Rightarrow> rt \<Rightarrow> error option \<times> rt" where
  "tryToUpgradeElement H nameSpace localName element s =
     (case priv s element of
        Some elementState \<Rightarrow>
          if shouldNotUpgrade elementState then (None, s)
          else (case lookupCustomElementDefinition H nameSpace localName
                       (isValue elementState) s of
                  None \<Rightarrow> (None, s)
                | Some defn \<Rightarrow> enqueueUpgradeReaction element defn s)
      | None \<Rightarrow>
          (case lookupCustomElementDefinition H nameSpace localName None s of
             None \<Rightarrow> (None, s)
           | Some defn \<Rightarrow> enqueueUpgradeReaction element defn s))"

text \<open>
  \<open>createAnElement\<close> (lines 281 to 340). An empty \<open>is\<close> counts as none. For a definition that extends
  a built-in element the new element gets a state object without a reaction queue and is
  upgraded at once or later; for any other definition the constructor runs at once, and
  what it throws or yields wrongly is reported and answered with a failed element.
\<close>

definition createAnElement ::
    "user_code \<Rightarrow> host \<Rightarrow> js_string \<Rightarrow> js_string option \<Rightarrow> js_string option \<Rightarrow> bool \<Rightarrow> rt
       \<Rightarrow> (error + elem) \<times> rt" where
  "createAnElement U H qualifiedOrLocalName nameSpace is0 synchronousCustomElements s =
     (let is = (if is0 = Some [] then None else is0)
      in case lookupCustomElementDefinition H nameSpace qualifiedOrLocalName is s of
           None \<Rightarrow> (Inr (createdElement H), s)
         | Some defn \<Rightarrow>
            if def_name defn \<noteq> def_localName defn then
              (let result = createdElement H;
                   s1 = setPrivateState result
                          \<lparr>customElementState = Some CE_STATE_UNDEFINED,
                           customElementDefinition = None,
                           reactionQueue = None, isValue = is\<rparr> s
               in case (if synchronousCustomElements then upgradeElement U result defn s1
                        else enqueueUpgradeReaction result defn s1) of
                    (Some e, s2) \<Rightarrow> (Inl e, s2)
                  | (None, s2) \<Rightarrow> (Inr result, s2))
            else if synchronousCustomElements then
              (case construct U (def_constructor defn) s of
                 (Inl e, s1) \<Rightarrow>
                   (Inr (createdElement H),
                    setPrivateState (createdElement H)
                      \<lparr>customElementState = Some CE_STATE_FAILED,
                       customElementDefinition = None,
                       reactionQueue = None, isValue = None\<rparr> (reportError e s1))
               | (Inr obj, s1) \<Rightarrow>
                   (case (if \<not> isHTMLElement H obj then Some TypeError
                          else if attributes s1 obj = [] \<and>
                                  isPristine H obj qualifiedOrLocalName
                          then None else Some NotSupportedError) of
                      Some e \<Rightarrow>
                        (Inr (createdElement H),
                         setPrivateState (createdElement H)
                           \<lparr>customElementState = Some CE_STATE_FAILED,
                            customElementDefinition = None,
                            reactionQueue = None, isValue = None\<rparr> (reportError e s1))
                    | None \<Rightarrow> (Inr obj, s1)))
            else
              (case enqueueUpgradeReaction (createdElement H) defn s of
                 (Some e, s1) \<Rightarrow> (Inl e, s1)
               | (None, s1) \<Rightarrow> (Inr (createdElement H), s1)))"

section \<open>Notions used in the properties\<close>

text \<open>
  The reactions of a state object, none when it has no queue yet.
\<close>

definition queueOrEmpty :: "elem_state \<Rightarrow> reaction list" where
  "queueOrEmpty es = (case reactionQueue es of None \<Rightarrow> [] | Some q \<Rightarrow> q)"

text \<open>
  What an upgrade has to enqueue for the attributes of an element under the definition
  \<open>d\<close>, and for its being connected.
\<close>

definition attributeBacklog :: "ce_definition \<Rightarrow> attribute list \<Rightarrow> reaction list" where
  "attributeBacklog d as =
     (case attributeChangedCallback (def_lifecycleCallbacks d) of
        None \<Rightarrow> []
      | Some cb \<Rightarrow>
          map (\<lambda>a. CallbackReaction cb (attributeChangedArgs a))
            (filter (\<lambda>a. attr_localName a \<in> set (def_observedAttributes d)) as))"

definition connectedBacklog :: "ce_definition \<Rightarrow> bool \<Rightarrow> reaction list" where
  "connectedBacklog d connected =
     (case connectedCallback (def_lifecycleCallbacks d) of
        None \<Rightarrow> []
      | Some cb \<Rightarrow> if connected then [CallbackReaction cb []] else [])"

text \<open>
  The second test of \<open>enqueueCallbackReaction\<close>: it concerns the attribute-changed
  callback alone, and asks for the first argument to be an observed name.
\<close>

definition observes :: "callback_name \<Rightarrow> js_value list \<Rightarrow> ce_definition \<Rightarrow> bool" where
  "observes callbackName args d \<longleftrightarrow>
     callbackName \<noteq> CE_CALLBACK_ATTRIBUTE_CHANGED \<or>
     (\<exists>a rest. args = StringValue a # rest \<and> a \<in> set (def_observedAttributes d))"

text \<open>
  The state object \<open>upgradeElement\<close> works on: the one of the element, or the one it
  creates.
\<close>

definition recordToUpgrade :: "elem \<Rightarrow> ce_definition \<Rightarrow> rt \<Rightarrow> elem_state" where
  "recordToUpgrade element defn s =
     (case priv s element of
        None \<Rightarrow> \<lparr>customElementState = None, customElementDefinition = Some defn,
                   reactionQueue = Some [], isValue = None\<rparr>
      | Some es \<Rightarrow> es)"

text \<open>
  An element has a reaction queue; an element has a reaction waiting.
\<close>

definition hasQueue :: "rt \<Rightarrow> elem \<Rightarrow> bool" where
  "hasQueue s el \<longleftrightarrow> (\<exists>es q. priv s el = Some es \<and> reactionQueue es = Some q)"

definition pending :: "rt \<Rightarrow> elem \<Rightarrow> bool" where
  "pending s el \<longleftrightarrow> (\<exists>es r rs. priv s el = Some es \<and> reactionQueue es = Some (r # rs))"

text \<open>
  The code of the page keeps the relation \<open>R\<close> between the state it finds and the state
  it leaves.
\<close>

definition pageRespects :: "(rt \<Rightarrow> rt \<Rightarrow> bool) \<Rightarrow> user_code \<Rightarrow> bool" where
  "pageRespects R U \<longleftrightarrow>
     (\<forall>c s. R s (snd (construct U c s))) \<and>
     (\<forall>f el args s. R s (snd (callback U f el args s)))"

text \<open>
  A state object after the module took reactions from the front of its queue, or emptied
  it: the queue is there if it was, and is an end of what it was.
\<close>

definition dequeues :: "elem_state \<Rightarrow> elem_state \<Rightarrow> bool" where
  "dequeues es es' \<longleftrightarrow>
     (case reactionQueue es of
        None \<Rightarrow> reactionQueue es' = None
      | Some q \<Rightarrow> (\<exists>q'. reactionQueue es' = Some q' \<and> suffix q' q))"

text \<open>
  The steps the module takes on its own, between two calls of code of the page, keep the
  relation \<open>R\<close>.
\<close>

definition moduleClosed :: "(rt \<Rightarrow> rt \<Rightarrow> bool) \<Rightarrow> bool" where
  "moduleClosed R \<longleftrightarrow>
     (\<forall>s. R s s) \<and>
     (\<forall>s s' s''. R s s' \<longrightarrow> R s' s'' \<longrightarrow> R s s'') \<and>
     (\<forall>el k args s. R s (snd (enqueueCallbackReaction el k args s))) \<and>
     (\<forall>el es s. priv s el = None \<longrightarrow> reactionQueue es = Some [] \<longrightarrow>
                 R s (setPrivateState el es s)) \<and>
     (\<forall>el es es' s. priv s el = Some es \<longrightarrow> dequeues es es' \<longrightarrow>
                 R s (setPrivateState el es' s)) \<and>
     (\<forall>d e s. R s (pushConstructionStack d e s)) \<and>
     (\<forall>d s. R s (popConstructionStack d s)) \<and>
     (\<forall>e s. R s (reportError e s))"

text \<open>
  Three relations: the backup element queue only grows; no reaction queue goes away and
  an element joins the backup element queue only with one; and the steps allowed at rest.
\<close>

definition backupGrows :: "rt \<Rightarrow> rt \<Rightarrow> bool" where
  "backupGrows s s' \<longleftrightarrow> prefix (backupElementQueue s) (backupElementQueue s')"

definition keepsQueues :: "rt \<Rightarrow> rt \<Rightarrow> bool" where
  "keepsQueues s s' \<longleftrightarrow>
     (\<forall>el. hasQueue s el \<longrightarrow> hasQueue s' el) \<and>
     (\<forall>el \<in> set (backupElementQueue s').
        el \<in> set (backupElementQueue s) \<or> hasQueue s' el)"

text \<open>
  At rest the module is installed and the stack of element queues is empty. The drain
  microtasks that wait are counted in the queue of microtasks; at most one waits, and then
  the processing flag is set.
\<close>

definition atRest :: "rt \<Rightarrow> bool" where
  "atRest s \<longleftrightarrow> installed s \<and> customElementsReactionStack s = []"

definition pendingDrains :: "rt \<Rightarrow> nat" where
  "pendingDrains s = length (filter (\<lambda>t. t = DrainBackupElementQueue) (microtasks s))"


text \<open>
  A step at rest leaves the module at rest, only adds to the backup element queue, gives a
  reaction only to an element that had one or that it puts on the backup element queue,
  and, while the processing flag is set, leaves the flag and the waiting drains alone.
\<close>

definition restStep :: "rt \<Rightarrow> rt \<Rightarrow> bool" where
  "restStep s s' \<longleftrightarrow>
     (atRest s \<longrightarrow>
        atRest s' \<and>
        prefix (backupElementQueue s) (backupElementQueue s') \<and>
        (\<forall>el. pending s' el \<longrightarrow>
           pending s el \<or>
           el \<in> set (drop (length (backupElementQueue s)) (backupElementQueue s'))) \<and>
        (processingBackupElementQueue s \<longrightarrow>
           processingBackupElementQueue s' \<and> pendingDrains s' = pendingDrains s))"


text \<open>
  The \<open>catch\<close> of the loop over the reactions of an element: an error is reported.
\<close>

definition afterCatch :: "error option \<times> rt \<Rightarrow> rt" where
  "afterCatch r = (case r of (None, s) \<Rightarrow> s | (Some error, s) \<Rightarrow> reportError error s)"



text \<open>
  Every element of the queue given to \<open>invokeReactions\<close>, and of the backup element
  queue, has a reaction queue.
\<close>

definition queued :: "queue_ref \<Rightarrow> rt \<Rightarrow> bool" where
  "queued queue s \<longleftrightarrow>
     (\<forall>el \<in> set (queueOf queue s) \<union> set (backupElementQueue s). hasQueue s el)"







text \<open>
  The elements on the backup element queue or on a queue of the stack; each of them has
  a reaction queue.
\<close>

definition queuedElements :: "rt \<Rightarrow> elem set" where
  "queuedElements s =
     set (backupElementQueue s) \<union> set (concat (customElementsReactionStack s))"

definition everyQueuedHasQueue :: "rt \<Rightarrow> bool" where
  "everyQueuedHasQueue s \<longleftrightarrow> (\<forall>el \<in> queuedElements s. hasQueue s el)"

section \<open>States and page code of the examples\<close>

text \<open>The state after \<open>install\<close> on a finished, empty document.\<close>

definition installedState :: rt where
  "installedState =
     \<lparr>installed = True, customElementsReactionStack = [], backupElementQueue = [],
      processingBackupElementQueue = False, microtasks = [], reported = [],
      priv = Map.empty, constructionStack = (\<lambda>_. []), definitions = [],
      elementDefinitionIsRunning = False, whenDefinedPromiseMap = (\<lambda>_. False),
      attributes = (\<lambda>_. []), isConnected = (\<lambda>_. False), documentLoading = False,
      documentNodes = [], testElement = None\<rparr>"

text \<open>
  A page whose constructors throw, whose callbacks do nothing and whose prototypes have
  no callback members.
\<close>

definition plainPage :: user_code where
  "plainPage =
     \<lparr>construct = (\<lambda>c s. (Inl (UserError c), s)),
      callback = (\<lambda>f element args s. (None, s)),
      prototypeProperty = (\<lambda>c k s. (Inr None, s)),
      observedAttributesOf = (\<lambda>c s. (Inr None, s))\<rparr>"

text \<open>
  Two constructors, each the constructor of its own prototype, and three definitions:
  \<open>x-a\<close> without callbacks, \<open>x-c\<close> with an attribute-changed callback (function 1)
  that observes \<open>id\<close> and a connected callback (function 2), and \<open>x-b\<close>, which extends
  \<open>button\<close>.
\<close>

definition ctorA :: constructor_ref where
  "ctorA = \<lparr>ctor_id = 7, ctor_prototype_constructor = 7,
            ctor_prototype_instanceof_Object = True\<rparr>"

definition ctorB :: constructor_ref where
  "ctorB = \<lparr>ctor_id = 8, ctor_prototype_constructor = 8,
            ctor_prototype_instanceof_Object = True\<rparr>"

definition noCallbacks :: lifecycle where
  "noCallbacks =
     \<lparr>connectedCallback = None, disconnectedCallback = None,
      adoptedCallback = None, attributeChangedCallback = None\<rparr>"

definition definitionA :: ce_definition where
  "definitionA =
     \<lparr>def_id = 0, def_name = js ''x-a'', def_localName = js ''x-a'', def_constructor = 7,
      def_observedAttributes = [], def_lifecycleCallbacks = noCallbacks,
      def_htmlConstructor = HTMLElement\<rparr>"

text \<open>
  The registry after one and after two calls of \<open>define\<close> for \<open>x-a\<close>.
\<close>

definition afterFirstDefine :: rt where
  "afterFirstDefine = installedState\<lparr>definitions := [definitionA]\<rparr>"

definition afterSecondDefine :: rt where
  "afterSecondDefine =
     installedState\<lparr>definitions :=
       [definitionA, definitionA\<lparr>def_id := 1, def_constructor := 8\<rparr>]\<rparr>"

definition callbacksC :: lifecycle where
  "callbacksC =
     \<lparr>connectedCallback = Some 2, disconnectedCallback = None,
      adoptedCallback = None, attributeChangedCallback = Some 1\<rparr>"

definition definitionC :: ce_definition where
  "definitionC =
     \<lparr>def_id = 0, def_name = js ''x-c'', def_localName = js ''x-c'', def_constructor = 7,
      def_observedAttributes = [js ''id''], def_lifecycleCallbacks = callbacksC,
      def_htmlConstructor = HTMLElement\<rparr>"

text \<open>
  A connected element with the attributes \<open>id\<close> and \<open>class\<close>, not yet upgraded, and
  a page whose constructors yield element 1.
\<close>

definition idAttribute :: attribute where
  "idAttribute =
     \<lparr>attr_localName = js ''id'', attr_value = js ''e1'', attr_namespaceURI = None\<rparr>"

definition classAttribute :: attribute where
  "classAttribute =
     \<lparr>attr_localName = js ''class'', attr_value = js ''big'', attr_namespaceURI = None\<rparr>"

definition connectedState :: rt where
  "connectedState =
     installedState\<lparr>definitions := [definitionC],
                    attributes := (\<lambda>_. [idAttribute, classAttribute]),
                    isConnected := (\<lambda>_. True)\<rparr>"

definition yieldingPage :: user_code where
  "yieldingPage = plainPage\<lparr>construct := (\<lambda>c s. (Inr 1, s))\<rparr>"

definition freshRecordC :: elem_state where
  "freshRecordC =
     \<lparr>customElementState = None, customElementDefinition = Some definitionC,
      reactionQueue = Some [], isValue = None\<rparr>"

definition definitionB :: ce_definition where
  "definitionB =
     \<lparr>def_id = 0, def_name = js ''x-b'', def_localName = js ''button'', def_constructor = 7,
      def_observedAttributes = [], def_lifecycleCallbacks = noCallbacks,
      def_htmlConstructor = BuiltInInterface 0\<rparr>"

text \<open>
  The state object \<open>createAnElement\<close> gives to an element of a definition that extends a
  built-in element, and the state with element 1 so created.
\<close>

definition createdRecord :: elem_state where
  "createdRecord =
     \<lparr>customElementState = Some CE_STATE_UNDEFINED, customElementDefinition = None,
      reactionQueue = None, isValue = Some (js ''x-b'')\<rparr>"

definition createdState :: rt where
  "createdState =
     installedState\<lparr>definitions := [definitionB],
                    testElement := Some (BuiltInInterface 0),
                    priv := [1 \<mapsto> createdRecord]\<rparr>"

text \<open>
  A custom element of definition \<open>x-c\<close> with the given reactions, and a state where the
  module is not installed.
\<close>

definition customRecord :: "reaction list \<Rightarrow> elem_state" where
  "customRecord q =
     \<lparr>customElementState = Some CE_STATE_CUSTOM, customElementDefinition = Some definitionC,
      reactionQueue = Some q, isValue = None\<rparr>"

definition uninstalledState :: rt where
  "uninstalledState =
     installedState\<lparr>installed := False, definitions := [definitionC],
                    priv := [1 \<mapsto> customRecord []]\<rparr>"

text \<open>
  A page whose callback 1 changes an attribute of element 3, which the module answers by
  enqueuing a reaction for that element; its other callbacks do nothing.
\<close>

definition chattyPage :: user_code where
  "chattyPage =
     plainPage\<lparr>callback :=
       (\<lambda>f element args s.
          if f = 1 then enqueueCallbackReaction 3 CE_CALLBACK_CONNECTED [] s
          else (None, s))\<rparr>"

text \<open>
  For the page above: the weight of a reaction (a reaction of callback 1 counts for
  itself, for the reaction its callback makes the module enqueue and for the place this
  takes on the backup element queue), the weight of the reactions of the elements 1, 2
  and 3, and the states in which these are all the elements with a state object, each of
  them custom with the definition \<open>x-c\<close>.
\<close>

definition chattyWeight :: "reaction \<Rightarrow> nat" where
  "chattyWeight r =
     (case r of
        CallbackReaction f args \<Rightarrow> if f = 1 then 3 else 1
      | UpgradeReaction d \<Rightarrow> 1)"

definition weightOf :: "rt \<Rightarrow> elem \<Rightarrow> nat" where
  "weightOf s el =
     (case priv s el of
        None \<Rightarrow> 0
      | Some es \<Rightarrow> sum_list (map chattyWeight (queueOrEmpty es)))"


definition chattyStates :: "rt \<Rightarrow> bool" where
  "chattyStates s \<longleftrightarrow>
     (\<forall>el es. priv s el = Some es \<longrightarrow>
        (el = 1 \<or> el = 2 \<or> el = 3) \<and> es = customRecord (queueOrEmpty es))"

text \<open>
  The state at the start of a drain: elements 1 and 2 are on the backup element queue with
  one reaction each, element 3 has none.
\<close>

definition drainState :: rt where
  "drainState =
     installedState\<lparr>definitions := [definitionC],
                    backupElementQueue := [1, 2],
                    processingBackupElementQueue := True,
                    priv := [1 \<mapsto> customRecord [CallbackReaction 1 []],
                             2 \<mapsto> customRecord [CallbackReaction 2 []],
                             3 \<mapsto> customRecord []]\<rparr>"

text \<open>A page whose callback 1 throws.\<close>

definition throwingPage :: user_code where
  "throwingPage =
     plainPage\<lparr>callback :=
       (\<lambda>f element args s. (if f = 1 then Some (UserError 1) else None, s))\<rparr>"




definition queueLength :: "rt \<Rightarrow> elem \<Rightarrow> nat" where
  "queueLength s el = (case priv s el of None \<Rightarrow> 0 | Some es \<Rightarrow> length (queueOrEmpty es))"

definition batchLoad :: "rt \<Rightarrow> nat" where
  "batchLoad s = queueLength s 1 + queueLength s 2"

definition bareStates :: "rt \<Rightarrow> bool" where
  "bareStates s \<longleftrightarrow>
     attributes s = (\<lambda>_. []) \<and> isConnected s = (\<lambda>_. False) \<and>
     (\<forall>el es. priv s el = Some es \<longrightarrow> (el = 1 \<or> el = 2) \<and> reactionQueue es \<noteq> None)"

text \<open>
  A custom element of definition \<open>x-c\<close> in an installed module; the state after a
  connected reaction was enqueued for it, with the drain microtask waiting; and the state
  after \<open>uninstall\<close> and a change of the attribute \<open>id\<close>, for which an
  attribute-changed reaction (callback 1) was enqueued.
\<close>

definition attachedState :: rt where
  "attachedState =
     installedState\<lparr>definitions := [definitionC], priv := [1 \<mapsto> customRecord []]\<rparr>"

definition scheduledState :: rt where
  "scheduledState =
     attachedState\<lparr>priv := [1 \<mapsto> customRecord [CallbackReaction 2 []]],
                   backupElementQueue := [1], processingBackupElementQueue := True,
                   microtasks := [DrainBackupElementQueue]\<rparr>"

definition lateState :: rt where
  "lateState =
     scheduledState\<lparr>installed := False,
                    priv := [1 \<mapsto> customRecord [CallbackReaction 2 [],
                               CallbackReaction 1 (attributeChangedArgs idAttribute)]]\<rparr>"

text \<open>
  The state the drain of \<open>drainState\<close> returns with, and a state whose backup element
  queue holds an element twice, with nothing to do.
\<close>

definition drainedState :: rt where
  "drainedState = snd (the (drainBackupElementQueue chattyPage 5 drainState))"

definition idleState :: rt where
  "idleState =
     installedState\<lparr>backupElementQueue := [1, 1],
                    processingBackupElementQueue := True,
                    priv := [1 \<mapsto> customRecord []]\<rparr>"

text \<open>
  A host that hands out element 1, and the states before and after \<open>define\<close> registers
  \<open>x-b\<close> with \<open>testElement\<close> bound.
\<close>

definition plainHost :: host where
  "plainHost =
     \<lparr>hasDefaultView = True, createdElement = 1, isHTMLElement = (\<lambda>_. True),
      isPristine = (\<lambda>_ _. True)\<rparr>"

definition boundState :: rt where
  "boundState = installedState\<lparr>testElement := Some (BuiltInInterface 0)\<rparr>"

definition registeredState :: rt where
  "registeredState = boundState\<lparr>definitions := [definitionB]\<rparr>"

section \<open>Properties of the name validator\<close>

lemma checkCode_pcen:
  "c < 0x10000 \<Longrightarrow> checkCode c h = (if pcenChar c then Some (h \<or> c = 0x2D) else None)"
  unfolding checkCode_def pcenChar_def
  by (simp split: if_splits)

lemma nameLoop_spec:
  "nameLoop us h = (list_all pcenChar (map unat us) \<and> (h \<or> 0x2D \<in> set (map unat us)))"
proof (induction us arbitrary: h)
  case Nil
  then show ?case by simp
next
  case (Cons u us)
  have lt: "unat u < 0x10000"
    using unsigned_less [of u, where ?'a = nat] by simp
  show ?case
    by (auto simp add: Cons.IH checkCode_pcen [OF lt])
qed

lemma inj_map_unat: "inj (map (unat :: 16 word \<Rightarrow> nat))"
  by (rule inj_mapI) (simp add: inj_on_def word_unat_eq_iff)

lemma reserved_units:
  "(map unat s \<in> set (map (map unat) reservedNames)) = (s \<in> set reservedNames)"
  using inj_image_mem_iff [OF inj_map_unat, of s "set reservedNames"] by simp

text \<open>
  Read unit by unit, each UTF-16 code unit taken as one character, the validator accepts
  exactly the names of the specification's rule. No unit reaches 0x10000, so on this
  reading the last range of the rule admits nothing.
\<close>

lemma isValidCustomElementName_units:
  "isValidCustomElementName s = specValidName (map unat s)"
proof (cases s)
  case Nil
  then show ?thesis
    by (simp add: isValidCustomElementName_def specValidName_def)
next
  case (Cons u us)
  show ?thesis
    unfolding isValidCustomElementName_def specValidName_def reserved_units
    by (cases us) (auto simp add: Cons nameLoop_spec Let_def)
qed

text \<open>
  C5. The rule of the specification is over characters and code-point ranges, the last
  of them 0x10000 to 0xEFFFF. The name made of \<open>a\<close>, a hyphen and the character U+10000
  satisfies the rule; the string holds that character as the two units 0xD800 and 0xDC00,
  the validator compares each unit against the ranges and rejects the name.
\<close>

theorem isValidCustomElementName_supplementary:
  "isValidCustomElementName [0x61, 0x2D, 0xD800, 0xDC00] = False \<and>
   codePoints [0x61, 0x2D, 0xD800, 0xDC00] = [0x61, 0x2D, 0x10000] \<and>
   specValidName (codePoints [0x61, 0x2D, 0xD800, 0xDC00])"
  by (simp add: isValidCustomElementName_def specValidName_def reservedNames_def js_def
      checkCode_def pcenChar_def)

lemma valid_xa: "isValidCustomElementName (js ''x-a'')"
  by (simp add: isValidCustomElementName_def reservedNames_def js_def checkCode_def)

lemma invalid_xa: "\<not> isValidCustomElementName (js ''xa'')"
  by (simp add: isValidCustomElementName_def reservedNames_def js_def checkCode_def)

lemma valid_xb: "isValidCustomElementName (js ''x-b'')"
  by (simp add: isValidCustomElementName_def reservedNames_def js_def checkCode_def)

lemma invalid_button: "\<not> isValidCustomElementName (js ''button'')"
  by (simp add: isValidCustomElementName_def reservedNames_def js_def checkCode_def)

lemma js_button_xb: "js ''x-b'' \<noteq> js ''button''" "js ''x-b'' \<noteq> []"
  by (simp_all add: js_def)

lemma js_id_class: "js ''class'' \<noteq> js ''id''"
  by (simp add: js_def)

section \<open>Properties of the registry\<close>

text \<open>
  C6. Two calls of \<open>define\<close> with the same name both succeed, and the table then holds
  two definitions of that name; \<open>get\<close> answers with the constructor of the first.
\<close>

theorem define_same_name_twice:
  "CustomElementRegistry_define plainPage 1 (js ''x-a'') ctorA None installedState
     = Some (Inr (), afterFirstDefine) \<and>
   CustomElementRegistry_define plainPage 1 (js ''x-a'') ctorB None afterFirstDefine
     = Some (Inr (), afterSecondDefine) \<and>
   map def_name (definitions afterSecondDefine) = [js ''x-a'', js ''x-a''] \<and>
   CustomElementRegistry_get (js ''x-a'') afterSecondDefine = Some 7"
  by (simp add: CustomElementRegistry_define_def executeCEReactions_def defineBody_def valid_xa
      readCallbacks_def getCallback_def plainPage_def ctorA_def ctorB_def installedState_def
      afterFirstDefine_def afterSecondDefine_def definitionA_def noCallbacks_def
      invokeReactions_def queueOf_def CustomElementRegistry_get_def)

text \<open>
  An error of the function handed to \<open>executeCEReactions\<close> is the error of the call,
  whether the module is installed or not.
\<close>

lemma executeCEReactions_error:
  assumes "\<And>s'. elementDefinitionIsRunning s' = elementDefinitionIsRunning s \<Longrightarrow>
             testElement s' = testElement s \<Longrightarrow> fst (work s') = Inl e"
  shows "map_option fst (executeCEReactions U n work s) = Some (Inl e)"
proof (cases "installed s")
  case True
  let ?s1 = "s\<lparr>customElementsReactionStack := customElementsReactionStack s @ [[]]\<rparr>"
  have "fst (work ?s1) = Inl e"
    by (rule assms) simp_all
  then obtain s2 where "work ?s1 = (Inl e, s2)"
    by (cases "work ?s1") auto
  with True show ?thesis
    by (simp add: executeCEReactions_def)
next
  case False
  have "fst (work s) = Inl e"
    by (rule assms) simp_all
  with False show ?thesis
    by (simp add: executeCEReactions_def)
qed

text \<open>
  C7, as the code has it. \<open>define\<close> fails with a TypeError when the constructor is not
  the constructor of its own prototype; otherwise with a SyntaxError when the name is not
  a valid custom element name; otherwise, when no \<open>extends\<close> option is given or the
  global \<open>testElement\<close> is bound, with a NotSupportedError when the registry is already
  running a definition.
\<close>

theorem define_failures:
  "(ctor_id ctor \<noteq> ctor_prototype_constructor ctor \<longrightarrow>
      map_option fst (CustomElementRegistry_define U n name ctor extensionOf s)
        = Some (Inl TypeError)) \<and>
   (ctor_id ctor = ctor_prototype_constructor ctor \<and> \<not> isValidCustomElementName name \<longrightarrow>
      map_option fst (CustomElementRegistry_define U n name ctor extensionOf s)
        = Some (Inl SyntaxError)) \<and>
   (ctor_id ctor = ctor_prototype_constructor ctor \<and> isValidCustomElementName name \<and>
    (extensionOf = None \<or> testElement s \<noteq> None) \<and> elementDefinitionIsRunning s \<longrightarrow>
      map_option fst (CustomElementRegistry_define U n name ctor extensionOf s)
        = Some (Inl NotSupportedError))"
  unfolding CustomElementRegistry_define_def
  by (intro conjI impI executeCEReactions_error)
     (auto simp add: defineBody_def split: option.splits)

theorem define_failures_witness:
  "map_option fst (CustomElementRegistry_define plainPage 1 (js ''x-a'')
      (ctorA\<lparr>ctor_prototype_constructor := 9\<rparr>) None installedState) = Some (Inl TypeError) \<and>
   map_option fst (CustomElementRegistry_define plainPage 1 (js ''xa'') ctorA None installedState)
      = Some (Inl SyntaxError) \<and>
   map_option fst (CustomElementRegistry_define plainPage 1 (js ''x-a'') ctorA None
      (installedState\<lparr>elementDefinitionIsRunning := True\<rparr>)) = Some (Inl NotSupportedError)"
  using define_failures [of "ctorA\<lparr>ctor_prototype_constructor := 9\<rparr>" plainPage 1
                            "js ''x-a''" None installedState]
        define_failures [of ctorA plainPage 1 "js ''xa''" None installedState]
        define_failures [of ctorA plainPage 1 "js ''x-a''" None
                            "installedState\<lparr>elementDefinitionIsRunning := True\<rparr>"]
  by (simp add: ctorA_def valid_xa invalid_xa)

text \<open>
  C7 as it is written asks for a TypeError when the name is not valid. The call below has
  a sound constructor and the name \<open>xa\<close>, and its error is a SyntaxError.
\<close>

theorem define_invalid_name_error:
  "CustomElementRegistry_define plainPage 1 (js ''xa'') ctorA None installedState
     = Some (Inl SyntaxError, installedState\<lparr>customElementsReactionStack := [[]]\<rparr>)"
  by (simp add: CustomElementRegistry_define_def executeCEReactions_def defineBody_def invalid_xa
      ctorA_def installedState_def)

section \<open>Properties of the element queue stack\<close>

text \<open>
  C3. A callback that throws leaves \<open>executeCEReactions\<close> with the queue pushed at entry
  still on the stack: the stack, empty before the call, holds one queue after it, and the
  next element enqueued lands on that queue instead of the backup element queue.
\<close>

theorem executeCEReactions_leaves_queue:
  "executeCEReactions plainPage n (\<lambda>s. (Inl (UserError 0) :: error + unit, s)) installedState
     = Some (Inl (UserError 0), installedState\<lparr>customElementsReactionStack := [[]]\<rparr>) \<and>
   enqueueElementOnAppropriateElementQueue 1
     (installedState\<lparr>customElementsReactionStack := [[]]\<rparr>)
     = installedState\<lparr>customElementsReactionStack := [[1]]\<rparr>"
  by (simp add: executeCEReactions_def installedState_def
      enqueueElementOnAppropriateElementQueue_def)

section \<open>Properties of the enqueuing functions\<close>

lemma enqueueElement_frame [simp]:
  "priv (enqueueElementOnAppropriateElementQueue el s) = priv s"
  "attributes (enqueueElementOnAppropriateElementQueue el s) = attributes s"
  "isConnected (enqueueElementOnAppropriateElementQueue el s) = isConnected s"
  "installed (enqueueElementOnAppropriateElementQueue el s) = installed s"
  "reported (enqueueElementOnAppropriateElementQueue el s) = reported s"
  "constructionStack (enqueueElementOnAppropriateElementQueue el s) = constructionStack s"
  by (simp_all add: enqueueElementOnAppropriateElementQueue_def Let_def)

lemma setPrivateState_frame [simp]:
  "priv (setPrivateState el es s) = (priv s)(el \<mapsto> es)"
  "attributes (setPrivateState el es s) = attributes s"
  "isConnected (setPrivateState el es s) = isConnected s"
  "installed (setPrivateState el es s) = installed s"
  "reported (setPrivateState el es s) = reported s"
  "constructionStack (setPrivateState el es s) = constructionStack s"
  "backupElementQueue (setPrivateState el es s) = backupElementQueue s"
  "customElementsReactionStack (setPrivateState el es s) = customElementsReactionStack s"
  "microtasks (setPrivateState el es s) = microtasks s"
  "processingBackupElementQueue (setPrivateState el es s) = processingBackupElementQueue s"
  by (simp_all add: setPrivateState_def)

lemma constructionStack_frame [simp]:
  "priv (pushConstructionStack d e s) = priv s"
  "priv (popConstructionStack d s) = priv s"
  "backupElementQueue (pushConstructionStack d e s) = backupElementQueue s"
  "backupElementQueue (popConstructionStack d s) = backupElementQueue s"
  "installed (pushConstructionStack d e s) = installed s"
  "installed (popConstructionStack d s) = installed s"
  "customElementsReactionStack (pushConstructionStack d e s) = customElementsReactionStack s"
  "customElementsReactionStack (popConstructionStack d s) = customElementsReactionStack s"
  "attributes (pushConstructionStack d e s) = attributes s"
  "isConnected (pushConstructionStack d e s) = isConnected s"
  by (simp_all add: pushConstructionStack_def popConstructionStack_def)

lemma reportError_frame [simp]:
  "priv (reportError e s) = priv s"
  "backupElementQueue (reportError e s) = backupElementQueue s"
  "installed (reportError e s) = installed s"
  "customElementsReactionStack (reportError e s) = customElementsReactionStack s"
  "reported (reportError e s) = reported s @ [e]"
  by (simp_all add: reportError_def)

text \<open>
  \<open>enqueueCallbackReaction\<close> on an element whose state object carries a definition:
  either the reaction goes to the end of the queue of the element, or nothing happens.
\<close>

lemma enqueueCallbackReaction_appends:
  assumes "priv s el = Some es" "customElementDefinition es = Some d"
    "callbackOf (def_lifecycleCallbacks d) k = Some cb" "observes k args d"
  shows "enqueueCallbackReaction el k args s =
           (None, enqueueElementOnAppropriateElementQueue el
                    (setPrivateState el
                       (es\<lparr>reactionQueue := Some (queueOrEmpty es @ [CallbackReaction cb args])\<rparr>) s))"
  using assms
  by (auto simp add: enqueueCallbackReaction_def observes_def queueOrEmpty_def Let_def
      split: option.splits list.splits js_value.splits)

lemma enqueueCallbackReaction_skips:
  assumes "priv s el = Some es" "customElementDefinition es = Some d"
    "callbackOf (def_lifecycleCallbacks d) k = None \<or> \<not> observes k args d"
  shows "enqueueCallbackReaction el k args s = (None, s)"
  using assms
  by (auto simp add: enqueueCallbackReaction_def observes_def queueOrEmpty_def Let_def
      split: option.splits list.splits js_value.splits)

lemma enqueueCallbackReaction_cases:
  assumes "enqueueCallbackReaction el k args s = (r, s')"
  shows "s' = s \<or>
         (\<exists>es cb. priv s el = Some es \<and>
            s' = enqueueElementOnAppropriateElementQueue el
                   (setPrivateState el
                      (es\<lparr>reactionQueue :=
                            Some (queueOrEmpty es @ [CallbackReaction cb args])\<rparr>) s))"
proof (cases "priv s el")
  case None
  with assms show ?thesis
    by (simp add: enqueueCallbackReaction_def)
next
  case (Some es)
  show ?thesis
  proof (cases "customElementDefinition es")
    case None
    with Some assms show ?thesis
      by (simp add: enqueueCallbackReaction_def)
  next
    case d: (Some d)
    show ?thesis
    proof (cases "callbackOf (def_lifecycleCallbacks d) k")
      case None
      with enqueueCallbackReaction_skips [OF Some d, of k args] assms show ?thesis
        by simp
    next
      case cb: (Some cb)
      show ?thesis
      proof (cases "observes k args d")
        case True
        from enqueueCallbackReaction_appends [OF Some d cb True] assms Some
        show ?thesis by auto
      next
        case False
        with enqueueCallbackReaction_skips [OF Some d, of k args] assms show ?thesis
          by simp
      qed
    qed
  qed
qed

lemma enqueueCallbackReaction_installed:
  "fst (enqueueCallbackReaction el k args (s\<lparr>installed := b\<rparr>))
     = fst (enqueueCallbackReaction el k args s) \<and>
   priv (snd (enqueueCallbackReaction el k args (s\<lparr>installed := b\<rparr>)))
     = priv (snd (enqueueCallbackReaction el k args s))"
proof (cases "priv s el")
  case None
  then show ?thesis
    by (simp add: enqueueCallbackReaction_def)
next
  case (Some es)
  then have p: "priv (s\<lparr>installed := b\<rparr>) el = Some es"
    by simp
  show ?thesis
  proof (cases "customElementDefinition es")
    case None
    with Some show ?thesis
      by (simp add: enqueueCallbackReaction_def)
  next
    case d: (Some d)
    show ?thesis
    proof (cases "callbackOf (def_lifecycleCallbacks d) k")
      case None
      then show ?thesis
        by (simp add: enqueueCallbackReaction_skips [OF Some d]
            enqueueCallbackReaction_skips [OF p d])
    next
      case cb: (Some cb)
      show ?thesis
      proof (cases "observes k args d")
        case True
        show ?thesis
          by (simp add: enqueueCallbackReaction_appends [OF Some d cb True]
              enqueueCallbackReaction_appends [OF p d cb True])
      next
        case False
        then show ?thesis
          by (simp add: enqueueCallbackReaction_skips [OF Some d]
              enqueueCallbackReaction_skips [OF p d])
      qed
    qed
  qed
qed

lemma enqueueUpgradeReaction_installed:
  "fst (enqueueUpgradeReaction el d (s\<lparr>installed := b\<rparr>))
     = fst (enqueueUpgradeReaction el d s) \<and>
   priv (snd (enqueueUpgradeReaction el d (s\<lparr>installed := b\<rparr>)))
     = priv (snd (enqueueUpgradeReaction el d s))"
  by (simp add: enqueueUpgradeReaction_def Let_def split: option.splits)

lemma enqueueCallbackReaction_not_installed:
  assumes "\<not> installed s"
  shows "backupElementQueue (snd (enqueueCallbackReaction el k args s)) = backupElementQueue s \<and>
         customElementsReactionStack (snd (enqueueCallbackReaction el k args s))
           = customElementsReactionStack s \<and>
         microtasks (snd (enqueueCallbackReaction el k args s)) = microtasks s"
proof -
  obtain r s' where run: "enqueueCallbackReaction el k args s = (r, s')"
    by (cases "enqueueCallbackReaction el k args s")
  from enqueueCallbackReaction_cases [OF run] assms run show ?thesis
    by (auto simp add: enqueueElementOnAppropriateElementQueue_def)
qed

lemma enqueueUpgradeReaction_not_installed:
  assumes "\<not> installed s"
  shows "backupElementQueue (snd (enqueueUpgradeReaction el d s)) = backupElementQueue s \<and>
         customElementsReactionStack (snd (enqueueUpgradeReaction el d s))
           = customElementsReactionStack s \<and>
         microtasks (snd (enqueueUpgradeReaction el d s)) = microtasks s"
  using assms
  by (simp add: enqueueUpgradeReaction_def Let_def enqueueElementOnAppropriateElementQueue_def
      split: option.splits)

text \<open>
  C10, as the code has it. While the module is not installed,
  \<open>enqueueElementOnAppropriateElementQueue\<close> changes nothing.
  \<open>enqueueCallbackReaction\<close> and \<open>enqueueUpgradeReaction\<close> return what they return when
  the module is installed and leave the same state objects, reaction queues included, but
  the backup element queue, the stack of element queues and the microtasks stay as they
  were: the element is put on no element queue and no drain is scheduled, so the call
  arranges for nothing to invoke the reaction, which stays in the queue of the element.
  Spelled out: \<open>enqueueUpgradeReaction\<close> on an element with no state object, or with one
  that has a reaction queue, and \<open>enqueueCallbackReaction\<close> for a callback that the
  definition has and, for an attribute, observes, append the reaction to the queue of the
  element and change nothing else.
\<close>

theorem enqueue_not_installed:
  "\<not> installed s \<Longrightarrow>
   enqueueElementOnAppropriateElementQueue element s = s \<and>
   (fst (enqueueCallbackReaction element callbackName args s)
      = fst (enqueueCallbackReaction element callbackName args (s\<lparr>installed := True\<rparr>)) \<and>
    priv (snd (enqueueCallbackReaction element callbackName args s))
      = priv (snd (enqueueCallbackReaction element callbackName args (s\<lparr>installed := True\<rparr>))) \<and>
    backupElementQueue (snd (enqueueCallbackReaction element callbackName args s))
      = backupElementQueue s \<and>
    customElementsReactionStack (snd (enqueueCallbackReaction element callbackName args s))
      = customElementsReactionStack s \<and>
    microtasks (snd (enqueueCallbackReaction element callbackName args s)) = microtasks s) \<and>
   (fst (enqueueUpgradeReaction element defn s)
      = fst (enqueueUpgradeReaction element defn (s\<lparr>installed := True\<rparr>)) \<and>
    priv (snd (enqueueUpgradeReaction element defn s))
      = priv (snd (enqueueUpgradeReaction element defn (s\<lparr>installed := True\<rparr>))) \<and>
    backupElementQueue (snd (enqueueUpgradeReaction element defn s)) = backupElementQueue s \<and>
    customElementsReactionStack (snd (enqueueUpgradeReaction element defn s))
      = customElementsReactionStack s \<and>
    microtasks (snd (enqueueUpgradeReaction element defn s)) = microtasks s) \<and>
   (priv s element = None \<longrightarrow>
      enqueueUpgradeReaction element defn s =
        (None, setPrivateState element
                 \<lparr>customElementState = None, customElementDefinition = Some defn,
                  reactionQueue = Some [UpgradeReaction defn], isValue = None\<rparr> s)) \<and>
   (priv s element = Some es \<and> reactionQueue es = Some q \<longrightarrow>
      enqueueUpgradeReaction element defn s =
        (None, setPrivateState element
                 (es\<lparr>customElementDefinition := Some defn,
                     reactionQueue := Some (q @ [UpgradeReaction defn])\<rparr>) s)) \<and>
   (priv s element = Some es \<and> customElementDefinition es = Some d \<and>
    callbackOf (def_lifecycleCallbacks d) callbackName = Some cb \<and>
    observes callbackName args d \<longrightarrow>
      enqueueCallbackReaction element callbackName args s =
        (None, setPrivateState element
                 (es\<lparr>reactionQueue :=
                       Some (queueOrEmpty es @ [CallbackReaction cb args])\<rparr>) s))"
proof (intro conjI impI)
  assume n: "\<not> installed s"
  note cb = enqueueCallbackReaction_installed [where el = element and k = callbackName and args = args
      and s = s and b = True]
    enqueueCallbackReaction_not_installed [OF n, of element callbackName args]
  note up = enqueueUpgradeReaction_installed [where el = element and d = defn and s = s and b = True]
    enqueueUpgradeReaction_not_installed [OF n, of element defn]
  show "enqueueElementOnAppropriateElementQueue element s = s"
    using n by (simp add: enqueueElementOnAppropriateElementQueue_def)
  show "fst (enqueueCallbackReaction element callbackName args s)
      = fst (enqueueCallbackReaction element callbackName args (s\<lparr>installed := True\<rparr>))"
    using cb by simp
  show "priv (snd (enqueueCallbackReaction element callbackName args s))
      = priv (snd (enqueueCallbackReaction element callbackName args (s\<lparr>installed := True\<rparr>)))"
    using cb by simp
  show "backupElementQueue (snd (enqueueCallbackReaction element callbackName args s))
      = backupElementQueue s"
    using cb by simp
  show "customElementsReactionStack (snd (enqueueCallbackReaction element callbackName args s))
      = customElementsReactionStack s"
    using cb by simp
  show "microtasks (snd (enqueueCallbackReaction element callbackName args s)) = microtasks s"
    using cb by simp
  show "fst (enqueueUpgradeReaction element defn s)
      = fst (enqueueUpgradeReaction element defn (s\<lparr>installed := True\<rparr>))"
    using up by simp
  show "priv (snd (enqueueUpgradeReaction element defn s))
      = priv (snd (enqueueUpgradeReaction element defn (s\<lparr>installed := True\<rparr>)))"
    using up by simp
  show "backupElementQueue (snd (enqueueUpgradeReaction element defn s)) = backupElementQueue s"
    using up by simp
  show "customElementsReactionStack (snd (enqueueUpgradeReaction element defn s))
      = customElementsReactionStack s"
    using up by simp
  show "microtasks (snd (enqueueUpgradeReaction element defn s)) = microtasks s"
    using up by simp
next
  assume "\<not> installed s" "priv s element = None"
  then show "enqueueUpgradeReaction element defn s =
        (None, setPrivateState element
                 \<lparr>customElementState = None, customElementDefinition = Some defn,
                  reactionQueue = Some [UpgradeReaction defn], isValue = None\<rparr> s)"
    by (simp add: enqueueUpgradeReaction_def enqueueElementOnAppropriateElementQueue_def)
next
  assume "\<not> installed s" "priv s element = Some es \<and> reactionQueue es = Some q"
  then show "enqueueUpgradeReaction element defn s =
        (None, setPrivateState element
                 (es\<lparr>customElementDefinition := Some defn,
                     reactionQueue := Some (q @ [UpgradeReaction defn])\<rparr>) s)"
    by (simp add: enqueueUpgradeReaction_def enqueueElementOnAppropriateElementQueue_def)
next
  assume "\<not> installed s"
    "priv s element = Some es \<and> customElementDefinition es = Some d \<and>
     callbackOf (def_lifecycleCallbacks d) callbackName = Some cb \<and>
     observes callbackName args d"
  then show "enqueueCallbackReaction element callbackName args s =
        (None, setPrivateState element
                 (es\<lparr>reactionQueue :=
                       Some (queueOrEmpty es @ [CallbackReaction cb args])\<rparr>) s)"
    by (simp add: enqueueCallbackReaction_appends enqueueElementOnAppropriateElementQueue_def)
qed

theorem enqueue_not_installed_witness:
  "\<not> installed uninstalledState \<and>
   enqueueElementOnAppropriateElementQueue 1 uninstalledState = uninstalledState \<and>
   enqueueUpgradeReaction 2 definitionC uninstalledState =
     (None, setPrivateState 2
              \<lparr>customElementState = None, customElementDefinition = Some definitionC,
               reactionQueue = Some [UpgradeReaction definitionC], isValue = None\<rparr>
              uninstalledState) \<and>
   enqueueUpgradeReaction 1 definitionC uninstalledState =
     (None, setPrivateState 1 (customRecord [UpgradeReaction definitionC]) uninstalledState) \<and>
   enqueueCallbackReaction 1 CE_CALLBACK_CONNECTED [] uninstalledState =
     (None, setPrivateState 1 (customRecord [CallbackReaction 2 []]) uninstalledState)"
proof -
  have 1: "\<not> installed uninstalledState"
    by (simp add: uninstalledState_def)
  have 2: "priv uninstalledState 2 = None" "priv uninstalledState 1 = Some (customRecord [])"
    by (simp_all add: uninstalledState_def)
  have 3: "reactionQueue (customRecord []) = Some []"
    "customElementDefinition (customRecord []) = Some definitionC"
    "callbackOf (def_lifecycleCallbacks definitionC) CE_CALLBACK_CONNECTED = Some 2"
    "observes CE_CALLBACK_CONNECTED [] definitionC"
    by (simp_all add: customRecord_def definitionC_def callbacksC_def observes_def)
  from enqueue_not_installed [where s = uninstalledState and element = 2
        and defn = definitionC]
    enqueue_not_installed [where s = uninstalledState and element = 1
        and es = "customRecord []" and q = "[]" and defn = definitionC and d = definitionC
        and callbackName = CE_CALLBACK_CONNECTED and cb = 2 and args = "[]"]
    1 2 3
  show ?thesis
    by (simp add: customRecord_def queueOrEmpty_def)
qed

text \<open>
  C10 as it is written concludes that the reaction appended is never invoked. Element 1
  below gets a connected reaction while the module is installed, which schedules a drain;
  then the module is uninstalled, and an attribute-changed reaction (callback 1, which
  throws) is appended to the queue of the element. The drain scheduled before still holds
  the installation object and its backup element queue: when it runs, it invokes both
  reactions, and the error of callback 1 is reported.
\<close>

theorem enqueue_not_installed_counterexample:
  "enqueueCallbackReaction 1 CE_CALLBACK_CONNECTED [] attachedState = (None, scheduledState) \<and>
   uninstall scheduledState = scheduledState\<lparr>installed := False\<rparr> \<and>
   enqueueCallbackReaction 1 CE_CALLBACK_ATTRIBUTE_CHANGED (attributeChangedArgs idAttribute)
     (scheduledState\<lparr>installed := False\<rparr>) = (None, lateState) \<and>
   \<not> installed lateState \<and> microtasks lateState = [DrainBackupElementQueue] \<and>
   map_option (\<lambda>(r, s). (r, reported s, map_option reactionQueue (priv s 1)))
     (drainBackupElementQueue throwingPage 4 lateState)
     = Some (None, [UserError 1], Some (Some []))"
proof (intro conjI)
  show "enqueueCallbackReaction 1 CE_CALLBACK_CONNECTED [] attachedState = (None, scheduledState)"
    by (simp add: enqueueCallbackReaction_def attachedState_def scheduledState_def
        installedState_def customRecord_def definitionC_def callbacksC_def setPrivateState_def
        enqueueElementOnAppropriateElementQueue_def Let_def)
  show "uninstall scheduledState = scheduledState\<lparr>installed := False\<rparr>"
    by (simp add: uninstall_def scheduledState_def attachedState_def installedState_def)
  show "enqueueCallbackReaction 1 CE_CALLBACK_ATTRIBUTE_CHANGED (attributeChangedArgs idAttribute)
     (scheduledState\<lparr>installed := False\<rparr>) = (None, lateState)"
    by (simp add: enqueueCallbackReaction_def attachedState_def scheduledState_def lateState_def
        installedState_def customRecord_def definitionC_def callbacksC_def setPrivateState_def
        enqueueElementOnAppropriateElementQueue_def Let_def attributeChangedArgs_def
        idAttribute_def)
  show "\<not> installed lateState" "microtasks lateState = [DrainBackupElementQueue]"
    by (simp_all add: lateState_def scheduledState_def)
  show "map_option (\<lambda>(r, s). (r, reported s, map_option reactionQueue (priv s 1)))
     (drainBackupElementQueue throwingPage 4 lateState)
     = Some (None, [UserError 1], Some (Some []))"
    by code_simp
qed

section \<open>Properties of the upgrade\<close>

lemma enqueueCallbackReaction_backlog:
  assumes "priv s el = Some es" "customElementDefinition es = Some d"
  shows "\<exists>s' es'. enqueueCallbackReaction el k args s = (None, s') \<and>
           priv s' el = Some es' \<and> customElementDefinition es' = Some d \<and>
           customElementState es' = customElementState es \<and>
           queueOrEmpty es' = queueOrEmpty es @
             (case callbackOf (def_lifecycleCallbacks d) k of
                None \<Rightarrow> []
              | Some cb \<Rightarrow> if observes k args d then [CallbackReaction cb args] else []) \<and>
           attributes s' = attributes s \<and> isConnected s' = isConnected s"
proof (cases "callbackOf (def_lifecycleCallbacks d) k")
  case None
  then show ?thesis
    using assms by (simp add: enqueueCallbackReaction_skips)
next
  case (Some cb)
  show ?thesis
  proof (cases "observes k args d")
    case True
    then show ?thesis
      using assms Some by (simp add: enqueueCallbackReaction_appends queueOrEmpty_def)
  next
    case False
    then show ?thesis
      using assms Some by (simp add: enqueueCallbackReaction_skips)
  qed
qed

lemma observes_attributeChangedArgs:
  "observes CE_CALLBACK_ATTRIBUTE_CHANGED (attributeChangedArgs a) d
     = (attr_localName a \<in> set (def_observedAttributes d))"
  by (simp add: observes_def attributeChangedArgs_def)

lemma enqueueAttributeReactions_backlog:
  assumes "priv s el = Some es" "customElementDefinition es = Some d"
  shows "\<exists>s' es'. enqueueAttributeReactions el as s = (None, s') \<and>
           priv s' el = Some es' \<and> customElementDefinition es' = Some d \<and>
           customElementState es' = customElementState es \<and>
           queueOrEmpty es' = queueOrEmpty es @ attributeBacklog d as \<and>
           attributes s' = attributes s \<and> isConnected s' = isConnected s"
  using assms
proof (induction as arbitrary: s es)
  case Nil
  then show ?case
    by (simp add: attributeBacklog_def split: option.splits)
next
  case (Cons a as)
  from enqueueCallbackReaction_backlog [OF Cons.prems, of CE_CALLBACK_ATTRIBUTE_CHANGED
      "attributeChangedArgs a"]
  obtain s1 es1 where
    1: "enqueueCallbackReaction el CE_CALLBACK_ATTRIBUTE_CHANGED (attributeChangedArgs a) s
          = (None, s1)"
    and 2: "priv s1 el = Some es1" "customElementDefinition es1 = Some d"
    and 3: "customElementState es1 = customElementState es"
    and 4: "queueOrEmpty es1 = queueOrEmpty es @
             (case attributeChangedCallback (def_lifecycleCallbacks d) of
                None \<Rightarrow> []
              | Some cb \<Rightarrow> if attr_localName a \<in> set (def_observedAttributes d)
                           then [CallbackReaction cb (attributeChangedArgs a)] else [])"
    and 5: "attributes s1 = attributes s" "isConnected s1 = isConnected s"
    by (auto simp add: observes_attributeChangedArgs cong: option.case_cong)
  from Cons.IH [OF 2] obtain s' es' where
    6: "enqueueAttributeReactions el as s1 = (None, s')"
      "priv s' el = Some es'" "customElementDefinition es' = Some d"
      "customElementState es' = customElementState es1"
      "queueOrEmpty es' = queueOrEmpty es1 @ attributeBacklog d as"
      "attributes s' = attributes s1" "isConnected s' = isConnected s1"
    by blast
  have "queueOrEmpty es' = queueOrEmpty es @ attributeBacklog d (a # as)"
    using 4 6(5) by (simp add: attributeBacklog_def split: option.splits)
  with 1 3 5 6 show ?case
    by simp
qed

lemma enqueueBacklog_backlog:
  assumes "priv s el = Some es" "customElementDefinition es = Some d"
  shows "\<exists>s' es'. enqueueBacklog el s = (None, s') \<and>
           priv s' el = Some es' \<and>
           customElementState es' = customElementState es \<and>
           queueOrEmpty es' = queueOrEmpty es @ attributeBacklog d (attributes s el)
                                @ connectedBacklog d (isConnected s el)"
proof -
  from enqueueAttributeReactions_backlog [OF assms, of "attributes s el"]
  obtain s1 es1 where
    1: "enqueueAttributeReactions el (attributes s el) s = (None, s1)"
      "priv s1 el = Some es1" "customElementDefinition es1 = Some d"
      "customElementState es1 = customElementState es"
      "queueOrEmpty es1 = queueOrEmpty es @ attributeBacklog d (attributes s el)"
      "isConnected s1 = isConnected s"
    by blast
  show ?thesis
  proof (cases "isConnected s el")
    case False
    with 1 show ?thesis
      by (simp add: enqueueBacklog_def connectedBacklog_def split: option.splits)
  next
    case True
    from enqueueCallbackReaction_backlog [OF 1(2,3), of CE_CALLBACK_CONNECTED "[]"]
    obtain s2 es2 where
      2: "enqueueCallbackReaction el CE_CALLBACK_CONNECTED [] s1 = (None, s2)"
        "priv s2 el = Some es2" "customElementState es2 = customElementState es1"
        "queueOrEmpty es2 = queueOrEmpty es1 @
           (case connectedCallback (def_lifecycleCallbacks d) of
              None \<Rightarrow> [] | Some cb \<Rightarrow> [CallbackReaction cb []])"
      by (auto simp add: observes_def cong: option.case_cong)
    have "queueOrEmpty es2 = queueOrEmpty es @ attributeBacklog d (attributes s el)
                                @ connectedBacklog d (isConnected s el)"
      using 1(5) 2(4) True by (simp add: connectedBacklog_def split: option.splits)
    with 1 2 True show ?thesis
      by (simp add: enqueueBacklog_def)
  qed
qed

text \<open>
  A reaction enqueued for an element goes behind those its queue holds, and the loop over
  the queue takes the reaction at the head.
\<close>

lemma enqueueCallbackReaction_behind:
  assumes "priv s el = Some es"
  shows "\<exists>es'. priv (snd (enqueueCallbackReaction el k args s)) el = Some es' \<and>
           prefix (queueOrEmpty es) (queueOrEmpty es')"
proof -
  obtain r s' where 1: "enqueueCallbackReaction el k args s = (r, s')"
    by (cases "enqueueCallbackReaction el k args s")
  from enqueueCallbackReaction_cases [OF 1] show ?thesis
  proof
    assume "s' = s"
    with 1 assms show ?thesis by simp
  next
    assume "\<exists>es cb. priv s el = Some es \<and>
            s' = enqueueElementOnAppropriateElementQueue el
                   (setPrivateState el
                      (es\<lparr>reactionQueue :=
                            Some (queueOrEmpty es @ [CallbackReaction cb args])\<rparr>) s)"
    with 1 assms show ?thesis
      by (auto simp add: queueOrEmpty_def)
  qed
qed

lemma enqueueUpgradeReaction_behind:
  assumes "priv s el = Some es"
  shows "\<exists>es'. priv (snd (enqueueUpgradeReaction el d s)) el = Some es' \<and>
           prefix (queueOrEmpty es) (queueOrEmpty es')"
  using assms
  by (cases "reactionQueue es")
     (simp_all add: enqueueUpgradeReaction_def queueOrEmpty_def)

lemma invokeElementReactions_turn:
  assumes "priv s el = Some es" "reactionQueue es = Some (x # xs)"
  shows "invokeElementReactions U (Suc n) el s =
           invokeElementReactions U n el
             (afterCatch (invokeReaction U el x
                (setPrivateState el (es\<lparr>reactionQueue := Some xs\<rparr>) s)))"
  using assms by (simp add: afterCatch_def split: prod.splits option.splits)

text \<open>
  C2, as the code has it. Let the state object of the element (the one \<open>upgradeElement\<close>
  creates when there is none) carry the definition \<open>d\<close> and be neither custom nor failed.
  Then the upgrade appends to the queue of the element, in this order and before the
  constructor runs: one attribute-changed reaction (old value null, new value the value of
  the attribute) for each attribute whose local name \<open>d\<close> observes, if \<open>d\<close> has an
  attribute-changed callback; then one connected reaction, if the element is connected
  and \<open>d\<close> has a connected callback. The constructor runs on the state so reached.
  Whatever is enqueued for the element afterwards goes behind these reactions, and the
  loop over the queue of the element invokes from the head.
\<close>

theorem upgradeElement_backlog:
  assumes "recordToUpgrade element defn s = es" "\<not> shouldNotUpgrade es"
    "customElementDefinition es = Some d"
  shows "(\<exists>s1 es1. enqueueBacklog element (setPrivateState element es s) = (None, s1) \<and>
           priv s1 element = Some es1 \<and>
           queueOrEmpty es1 = queueOrEmpty es @ attributeBacklog d (attributes s element)
                                @ connectedBacklog d (isConnected s element) \<and>
           upgradeElement U element defn s =
             constructSteps U element defn
               (pushConstructionStack defn (ElementEntry element) s1)) \<and>
         (\<forall>s2 es2 k args. priv s2 element = Some es2 \<longrightarrow>
            (\<exists>es3. priv (snd (enqueueCallbackReaction element k args s2)) element = Some es3 \<and>
               prefix (queueOrEmpty es2) (queueOrEmpty es3))) \<and>
         (\<forall>s2 es2 d2. priv s2 element = Some es2 \<longrightarrow>
            (\<exists>es3. priv (snd (enqueueUpgradeReaction element d2 s2)) element = Some es3 \<and>
               prefix (queueOrEmpty es2) (queueOrEmpty es3))) \<and>
         (\<forall>s2 es2 x xs m. priv s2 element = Some es2 \<and> reactionQueue es2 = Some (x # xs) \<longrightarrow>
            invokeElementReactions U (Suc m) element s2 =
              invokeElementReactions U m element
                (afterCatch (invokeReaction U element x
                   (setPrivateState element (es2\<lparr>reactionQueue := Some xs\<rparr>) s2))))"
proof (intro conjI allI impI)
  let ?s0 = "setPrivateState element es s"
  have p: "priv ?s0 element = Some es"
    by simp
  from enqueueBacklog_backlog [OF p assms(3)] obtain s1 es1 where
    1: "enqueueBacklog element ?s0 = (None, s1)" "priv s1 element = Some es1"
      "queueOrEmpty es1 = queueOrEmpty es @ attributeBacklog d (attributes s element)
                                @ connectedBacklog d (isConnected s element)"
    by auto
  have "upgradeElement U element defn s = upgradeSteps U element defn ?s0"
  proof (cases "priv s element")
    case None
    with assms(1) show ?thesis
      by (simp add: upgradeElement_def recordToUpgrade_def)
  next
    case (Some es')
    with assms(1) have e: "es' = es"
      by (simp add: recordToUpgrade_def)
    have "setPrivateState element es s = s"
      using Some e by (simp add: setPrivateState_def fun_upd_idem)
    with Some e assms(2) show ?thesis
      by (simp add: upgradeElement_def)
  qed
  with 1 show "\<exists>s1 es1. enqueueBacklog element (setPrivateState element es s) = (None, s1) \<and>
           priv s1 element = Some es1 \<and>
           queueOrEmpty es1 = queueOrEmpty es @ attributeBacklog d (attributes s element)
                                @ connectedBacklog d (isConnected s element) \<and>
           upgradeElement U element defn s =
             constructSteps U element defn
               (pushConstructionStack defn (ElementEntry element) s1)"
    by (simp add: upgradeSteps_def)
next
  fix s2 :: rt and es2 :: elem_state and k args
  assume "priv s2 element = Some es2"
  then show "\<exists>es3. priv (snd (enqueueCallbackReaction element k args s2)) element = Some es3 \<and>
               prefix (queueOrEmpty es2) (queueOrEmpty es3)"
    by (rule enqueueCallbackReaction_behind)
next
  fix s2 :: rt and es2 :: elem_state and d2
  assume "priv s2 element = Some es2"
  then show "\<exists>es3. priv (snd (enqueueUpgradeReaction element d2 s2)) element = Some es3 \<and>
               prefix (queueOrEmpty es2) (queueOrEmpty es3)"
    by (rule enqueueUpgradeReaction_behind)
next
  fix s2 :: rt and es2 :: elem_state and x xs m
  assume "priv s2 element = Some es2 \<and> reactionQueue es2 = Some (x # xs)"
  then show "invokeElementReactions U (Suc m) element s2 =
              invokeElementReactions U m element
                (afterCatch (invokeReaction U element x
                   (setPrivateState element (es2\<lparr>reactionQueue := Some xs\<rparr>) s2)))"
    using invokeElementReactions_turn [of s2 element es2 x xs U m] by simp
qed

theorem upgradeElement_backlog_witness:
  "recordToUpgrade 1 definitionC connectedState = freshRecordC \<and>
   \<not> shouldNotUpgrade freshRecordC \<and>
   customElementDefinition freshRecordC = Some definitionC \<and>
   (\<exists>s1 es1. enqueueBacklog 1 (setPrivateState 1 freshRecordC connectedState) = (None, s1) \<and>
      priv s1 1 = Some es1 \<and>
      queueOrEmpty es1 =
        [CallbackReaction 1 (attributeChangedArgs idAttribute), CallbackReaction 2 []] \<and>
      upgradeElement yieldingPage 1 definitionC connectedState =
        constructSteps yieldingPage 1 definitionC
          (pushConstructionStack definitionC (ElementEntry 1) s1))"
proof -
  have 1: "recordToUpgrade 1 definitionC connectedState = freshRecordC"
    by (simp add: recordToUpgrade_def connectedState_def installedState_def freshRecordC_def)
  have 2: "\<not> shouldNotUpgrade freshRecordC"
    by (simp add: shouldNotUpgrade_def freshRecordC_def)
  have 3: "customElementDefinition freshRecordC = Some definitionC"
    by (simp add: freshRecordC_def)
  have 4: "queueOrEmpty freshRecordC @
             attributeBacklog definitionC (attributes connectedState 1) @
             connectedBacklog definitionC (isConnected connectedState 1)
           = [CallbackReaction 1 (attributeChangedArgs idAttribute), CallbackReaction 2 []]"
    by (simp add: queueOrEmpty_def freshRecordC_def attributeBacklog_def connectedBacklog_def
        definitionC_def callbacksC_def connectedState_def idAttribute_def classAttribute_def
        js_id_class)
  from upgradeElement_backlog [OF 1 2 3, of yieldingPage, THEN conjunct1] 1 2 3 4
  show ?thesis
    by simp
qed

text \<open>
  C2 as it is written asks for one reaction for each attribute. The element below is
  connected and has the attributes \<open>id\<close> and \<open>class\<close>; its definition observes
  \<open>id\<close> alone. After the upgrade the queue holds one attribute-changed reaction, not two,
  and the connected reaction.
\<close>

theorem upgradeElement_backlog_counterexample:
  "attributes connectedState 1 = [idAttribute, classAttribute] \<and> isConnected connectedState 1 \<and>
   fst (upgradeElement yieldingPage 1 definitionC connectedState) = None \<and>
   map_option reactionQueue (priv (snd (upgradeElement yieldingPage 1 definitionC connectedState)) 1)
     = Some (Some [CallbackReaction 1 (attributeChangedArgs idAttribute), CallbackReaction 2 []])"
  by (simp add: connectedState_def installedState_def upgradeElement_def upgradeSteps_def
      enqueueBacklog_def enqueueCallbackReaction_def definitionC_def callbacksC_def
      idAttribute_def classAttribute_def attributeChangedArgs_def js_id_class
      setPrivateState_def enqueueElementOnAppropriateElementQueue_def Let_def
      constructSteps_def markCustom_def constructionError_def yieldingPage_def plainPage_def
      pushConstructionStack_def popConstructionStack_def)

text \<open>
  When the constructor fails with a truthy error on an element whose state object has a
  reaction queue, the element is marked failed, loses its definition and its reactions,
  the construction stack is popped, the error of the constructor is the error of the
  upgrade, and a further upgrade of the element does nothing. When what the constructor
  throws is falsy, the upgrade returns without an error and the element ends custom,
  without a definition and without reactions.
\<close>

lemma constructSteps_failure:
  assumes "construct U (def_constructor defn) s = (r, s1)"
    "constructionError r element = Some caught" "truthy caught"
    "priv s1 element = Some es" "reactionQueue es = Some q"
  shows "constructSteps U element defn s =
           (Some caught,
            popConstructionStack defn
              (setPrivateState element
                 (es\<lparr>customElementState := Some CE_STATE_FAILED,
                     customElementDefinition := None, reactionQueue := Some []\<rparr>) s1))"
  using assms by (simp add: constructSteps_def)

lemma constructSteps_falsy:
  assumes "construct U (def_constructor defn) s = (r, s1)"
    "constructionError r element = Some caught" "\<not> truthy caught"
    "priv s1 element = Some es" "reactionQueue es = Some q"
  shows "constructSteps U element defn s =
           (None,
            setPrivateState element
              (es\<lparr>customElementState := Some CE_STATE_CUSTOM,
                  customElementDefinition := None, reactionQueue := Some []\<rparr>)
              (popConstructionStack defn s1))"
  using assms
  by (cases es)
     (simp add: constructSteps_def markCustom_def setPrivateState_def popConstructionStack_def)

lemma upgradeElement_failed_noop:
  assumes "priv s element = Some es" "customElementState es = Some CE_STATE_FAILED"
  shows "upgradeElement U element defn s = (None, s)"
  using assms by (simp add: upgradeElement_def shouldNotUpgrade_def)

lemma constructSteps_failure_noop:
  assumes "construct U (def_constructor defn) s = (r, s1)"
    "constructionError r element = Some caught" "truthy caught"
    "priv s1 element = Some es" "reactionQueue es = Some q"
    "constructSteps U element defn s = (e, s')"
  shows "e = Some caught \<and>
         constructionStack s' (def_id defn) = butlast (constructionStack s1 (def_id defn)) \<and>
         priv s' element =
           Some (es\<lparr>customElementState := Some CE_STATE_FAILED,
                    customElementDefinition := None, reactionQueue := Some []\<rparr>) \<and>
         upgradeElement U element defn' s' = (None, s')"
proof -
  from constructSteps_failure [OF assms(1-5)] assms(6)
  have 1: "e = Some caught"
    and 2: "s' = popConstructionStack defn
              (setPrivateState element
                 (es\<lparr>customElementState := Some CE_STATE_FAILED,
                     customElementDefinition := None, reactionQueue := Some []\<rparr>) s1)"
    by simp_all
  from 2 have 3: "priv s' element =
           Some (es\<lparr>customElementState := Some CE_STATE_FAILED,
                    customElementDefinition := None, reactionQueue := Some []\<rparr>)"
    by simp
  from 2 have 4: "constructionStack s' (def_id defn) =
                    butlast (constructionStack s1 (def_id defn))"
    by (simp add: popConstructionStack_def)
  from upgradeElement_failed_noop [OF 3] 1 3 4 show ?thesis
    by simp
qed

lemma define_customized:
  "CustomElementRegistry_define plainPage 1 (js ''x-b'') ctorA (Some (js ''button'')) boundState
     = Some (Inr (), registeredState)"
  by (simp add: CustomElementRegistry_define_def executeCEReactions_def defineBody_def valid_xb
      invalid_button readCallbacks_def getCallback_def plainPage_def ctorA_def
      installedState_def boundState_def registeredState_def definitionB_def noCallbacks_def
      invokeReactions_def queueOf_def)

lemma created:
  "setPrivateState 1 createdRecord registeredState = createdState"
  by (simp add: setPrivateState_def createdState_def registeredState_def boundState_def installedState_def)

text \<open>
  C1. With the global \<open>testElement\<close> bound, \<open>define\<close> registers \<open>x-b\<close> as an
  extension of \<open>button\<close>. \<open>createAnElement\<close> then gives the new button a state object
  without a reaction queue and upgrades it. The constructor throws; in the \<open>catch\<close> block
  the call of \<open>splice\<close> on the missing queue throws a TypeError, which leaves
  \<open>upgradeElement\<close> before the \<open>pop\<close>: the element stays on the construction stack
  of the definition, and the caller gets the TypeError, not the error of the constructor.
\<close>

theorem createAnElement_failure_without_queue:
  "CustomElementRegistry_define plainPage 1 (js ''x-b'') ctorA (Some (js ''button'')) boundState
     = Some (Inr (), registeredState) \<and>
   setPrivateState 1 createdRecord registeredState = createdState \<and>
   createAnElement plainPage plainHost (js ''button'') (Some htmlNamespace)
     (Some (js ''x-b'')) True registeredState
     = (Inl TypeError,
        createdState\<lparr>constructionStack := (\<lambda>_. [])(0 := [ElementEntry 1]),
                     priv := [1 \<mapsto> createdRecord\<lparr>customElementState := Some CE_STATE_FAILED\<rparr>]\<rparr>) \<and>
   upgradeElement plainPage 1 definitionB createdState
     = (Some TypeError,
        createdState\<lparr>constructionStack := (\<lambda>_. [])(0 := [ElementEntry 1]),
                     priv := [1 \<mapsto> createdRecord\<lparr>customElementState := Some CE_STATE_FAILED\<rparr>]\<rparr>) \<and>
   construct plainPage (def_constructor definitionB) createdState
     = (Inl (UserError 7), createdState)"
proof (intro conjI)
  show "CustomElementRegistry_define plainPage 1 (js ''x-b'') ctorA (Some (js ''button''))
          boundState = Some (Inr (), registeredState)"
    by (rule define_customized)
  show "setPrivateState 1 createdRecord registeredState = createdState"
    by (rule created)
  show "createAnElement plainPage plainHost (js ''button'') (Some htmlNamespace)
     (Some (js ''x-b'')) True registeredState
     = (Inl TypeError,
        createdState\<lparr>constructionStack := (\<lambda>_. [])(0 := [ElementEntry 1]),
                     priv := [1 \<mapsto> createdRecord\<lparr>customElementState := Some CE_STATE_FAILED\<rparr>]\<rparr>)"
    by (simp add: createAnElement_def lookupCustomElementDefinition_def plainHost_def
        registeredState_def boundState_def installedState_def definitionB_def js_button_xb
        createdState_def createdRecord_def
        upgradeElement_def upgradeSteps_def shouldNotUpgrade_def enqueueBacklog_def
        setPrivateState_def Let_def constructSteps_def constructionError_def plainPage_def
        pushConstructionStack_def popConstructionStack_def)
  show "upgradeElement plainPage 1 definitionB createdState
     = (Some TypeError,
        createdState\<lparr>constructionStack := (\<lambda>_. [])(0 := [ElementEntry 1]),
                     priv := [1 \<mapsto> createdRecord\<lparr>customElementState := Some CE_STATE_FAILED\<rparr>]\<rparr>)"
    by (simp add: createdState_def createdRecord_def installedState_def upgradeElement_def
        upgradeSteps_def shouldNotUpgrade_def enqueueBacklog_def definitionB_def
        setPrivateState_def Let_def constructSteps_def constructionError_def plainPage_def
        pushConstructionStack_def popConstructionStack_def)
  show "construct plainPage (def_constructor definitionB) createdState
     = (Inl (UserError 7), createdState)"
    by (simp add: plainPage_def definitionB_def)
qed

section \<open>Relations that the module keeps\<close>

text \<open>
  A relation between the state before and the state after is kept by the upgrade and by
  the iterations over the reactions as soon as it is reflexive and transitive, the steps of the
  module keep it (\<open>moduleClosed\<close>) and the code of the page keeps it
  (\<open>pageRespects\<close>).
\<close>

lemma closed_refl: "moduleClosed R \<Longrightarrow> R s s"
  by (simp add: moduleClosed_def)

lemma closed_trans:
  assumes "moduleClosed R" "R s s'" "R s' s''"
  shows "R s s''"
proof -
  from assms(1) have "\<forall>s s' s''. R s s' \<longrightarrow> R s' s'' \<longrightarrow> R s s''"
    by (simp add: moduleClosed_def)
  from this [rule_format, OF assms(2) assms(3)] show ?thesis .
qed

lemma closed_enqueue: "moduleClosed R \<Longrightarrow> R s (snd (enqueueCallbackReaction el k args s))"
  by (simp add: moduleClosed_def)

lemma closed_fresh:
  "moduleClosed R \<Longrightarrow> priv s el = None \<Longrightarrow> reactionQueue es = Some [] \<Longrightarrow>
   R s (setPrivateState el es s)"
  by (simp add: moduleClosed_def)

lemma closed_dequeue:
  assumes "moduleClosed R" "priv s el = Some es" "dequeues es es'"
  shows "R s (setPrivateState el es' s)"
proof -
  from assms(1) have "\<forall>el es es' s. priv s el = Some es \<longrightarrow> dequeues es es' \<longrightarrow>
                 R s (setPrivateState el es' s)"
    by (simp add: moduleClosed_def)
  from this [rule_format, OF assms(2) assms(3)] show ?thesis .
qed

lemma closed_push: "moduleClosed R \<Longrightarrow> R s (pushConstructionStack d e s)"
  by (simp add: moduleClosed_def)

lemma closed_pop: "moduleClosed R \<Longrightarrow> R s (popConstructionStack d s)"
  by (simp add: moduleClosed_def)

lemma closed_report: "moduleClosed R \<Longrightarrow> R s (reportError e s)"
  by (simp add: moduleClosed_def)

lemma pageRespects_construct: "pageRespects R U \<Longrightarrow> R s (snd (construct U c s))"
  by (simp add: pageRespects_def)

lemma pageRespects_callback: "pageRespects R U \<Longrightarrow> R s (snd (callback U f el args s))"
  by (simp add: pageRespects_def)

lemma enqueueAttributeReactions_rel:
  assumes "moduleClosed R"
  shows "R s (snd (enqueueAttributeReactions el as s))"
proof (induction as arbitrary: s)
  case Nil
  show ?case by (simp add: closed_refl [OF assms])
next
  case (Cons a as)
  obtain r s1 where 1:
    "enqueueCallbackReaction el CE_CALLBACK_ATTRIBUTE_CHANGED (attributeChangedArgs a) s = (r, s1)"
    by (cases "enqueueCallbackReaction el CE_CALLBACK_ATTRIBUTE_CHANGED (attributeChangedArgs a) s")
  have 2: "R s s1"
    using closed_enqueue [OF assms, of s el CE_CALLBACK_ATTRIBUTE_CHANGED "attributeChangedArgs a"] 1
    by simp
  show ?case
  proof (cases r)
    case None
    with 1 2 Cons.IH [of s1] show ?thesis
      by (auto intro: closed_trans [OF assms])
  next
    case (Some e)
    with 1 2 show ?thesis by simp
  qed
qed

lemma enqueueBacklog_rel:
  assumes "moduleClosed R"
  shows "R s (snd (enqueueBacklog el s))"
proof -
  obtain r s1 where 1: "enqueueAttributeReactions el (attributes s el) s = (r, s1)"
    by (cases "enqueueAttributeReactions el (attributes s el) s")
  have 2: "R s s1"
    using enqueueAttributeReactions_rel [OF assms, of s el "attributes s el"] 1 by simp
  have 3: "R s1 (snd (enqueueCallbackReaction el CE_CALLBACK_CONNECTED [] s1))"
    by (rule closed_enqueue [OF assms])
  show ?thesis
    using 1 2 closed_trans [OF assms 2 3]
    by (cases r) (simp_all add: enqueueBacklog_def)
qed

lemma markCustom_rel:
  assumes c: "moduleClosed R"
  shows "R s (markCustom el s)"
proof (cases "priv s el")
  case None
  then show ?thesis
    by (simp add: markCustom_def closed_refl [OF c])
next
  case (Some es)
  have "dequeues es (es\<lparr>customElementState := Some CE_STATE_CUSTOM\<rparr>)"
    by (simp add: dequeues_def split: option.splits)
  from closed_dequeue [OF c Some this] Some show ?thesis
    by (simp add: markCustom_def)
qed

lemma constructSteps_rel:
  assumes c: "moduleClosed R" and u: "pageRespects R U"
  shows "R s (snd (constructSteps U el d s))"
proof -
  obtain r s1 where 1: "construct U (def_constructor d) s = (r, s1)"
    by (cases "construct U (def_constructor d) s")
  have 2: "R s s1"
    using pageRespects_construct [OF u, of s "def_constructor d"] 1 by simp
  have pop: "\<And>s2. R s1 s2 \<Longrightarrow> R s1 (popConstructionStack d s2)"
    by (rule closed_trans [OF c _ closed_pop [OF c]])
  have mark: "\<And>s2. R s1 s2 \<Longrightarrow> R s1 (markCustom el (popConstructionStack d s2))"
    by (rule closed_trans [OF c pop markCustom_rel [OF c]])
  have 3: "R s1 (snd (constructSteps U el d s))"
  proof (cases "constructionError r el")
    case None
    with 1 show ?thesis
      by (simp add: constructSteps_def Let_def mark [OF closed_refl [OF c]])
  next
    case caught: (Some caught)
    show ?thesis
    proof (cases "priv s1 el")
      case None
      with 1 caught show ?thesis
        by (simp add: constructSteps_def Let_def pop [OF closed_refl [OF c]]
            mark [OF closed_refl [OF c]])
    next
      case (Some es)
      have a: "\<And>es'. dequeues es es' \<Longrightarrow> R s1 (setPrivateState el es' s1)"
        by (rule closed_dequeue [OF c Some])
      show ?thesis
      proof (cases "reactionQueue es")
        case None
        have "dequeues es (es\<lparr>customElementState := Some CE_STATE_FAILED,
                              customElementDefinition := None\<rparr>)"
          using None by (simp add: dequeues_def)
        from a [OF this] 1 caught Some None show ?thesis
          by (simp add: constructSteps_def)
      next
        case q: (Some q)
        have "dequeues es (es\<lparr>customElementState := Some CE_STATE_FAILED,
                              customElementDefinition := None, reactionQueue := Some []\<rparr>)"
          using q by (simp add: dequeues_def)
        from pop [OF a [OF this]] mark [OF a [OF this]] 1 caught Some q show ?thesis
          by (simp add: constructSteps_def Let_def)
      qed
    qed
  qed
  from closed_trans [OF c 2 3] show ?thesis .
qed

lemma upgradeSteps_rel:
  assumes c: "moduleClosed R" and u: "pageRespects R U"
  shows "R s (snd (upgradeSteps U el d s))"
proof -
  obtain r s1 where 1: "enqueueBacklog el s = (r, s1)"
    by (cases "enqueueBacklog el s")
  have 2: "R s s1"
    using enqueueBacklog_rel [OF c, of s el] 1 by simp
  have 3: "R s1 (snd (constructSteps U el d (pushConstructionStack d (ElementEntry el) s1)))"
    by (rule closed_trans [OF c closed_push [OF c] constructSteps_rel [OF c u]])
  show ?thesis
    using 1 2 closed_trans [OF c 2 3]
    by (cases r) (simp_all add: upgradeSteps_def)
qed

lemma upgradeElement_rel:
  assumes c: "moduleClosed R" and u: "pageRespects R U"
  shows "R s (snd (upgradeElement U el d s))"
proof (cases "priv s el")
  case None
  let ?es = "\<lparr>customElementState = None, customElementDefinition = Some d,
              reactionQueue = Some [], isValue = None\<rparr>"
  have "R s (setPrivateState el ?es s)"
    by (rule closed_fresh [OF c None]) simp
  from closed_trans [OF c this upgradeSteps_rel [OF c u]] None show ?thesis
    by (simp add: upgradeElement_def)
next
  case (Some es)
  then show ?thesis
    by (simp add: upgradeElement_def closed_refl [OF c] upgradeSteps_rel [OF c u])
qed

lemma invokeReaction_rel:
  assumes c: "moduleClosed R" and u: "pageRespects R U"
  shows "R s (snd (invokeReaction U el r s))"
  by (cases r)
     (simp_all add: invokeReaction_def upgradeElement_rel [OF c u] pageRespects_callback [OF u])


lemma invokeElementReactions_rel:
  assumes c: "moduleClosed R" and u: "pageRespects R U"
  shows "invokeElementReactions U n el s = Some (r, s') \<Longrightarrow> R s s'"
proof (induction n arbitrary: s)
  case 0
  then show ?case by simp
next
  case (Suc n)
  show ?case
  proof (cases "priv s el")
    case None
    with Suc.prems show ?thesis by (simp add: closed_refl [OF c])
  next
    case (Some es)
    show ?thesis
    proof (cases "reactionQueue es")
      case None
      with Some Suc.prems show ?thesis by (simp add: closed_refl [OF c])
    next
      case q: (Some q)
      show ?thesis
      proof (cases q)
        case Nil
        with Some q Suc.prems show ?thesis by (simp add: closed_refl [OF c])
      next
        case (Cons x xs)
        let ?s1 = "setPrivateState el (es\<lparr>reactionQueue := Some xs\<rparr>) s"
        have 1: "R s ?s1"
          by (rule closed_dequeue [OF c Some]) (simp add: dequeues_def q Cons suffix_ConsI)
        obtain o1 s2 where 2: "invokeReaction U el x ?s1 = (o1, s2)"
          by (cases "invokeReaction U el x ?s1")
        have 3: "R ?s1 s2"
          using invokeReaction_rel [OF c u, of ?s1 el x] 2 by simp
        let ?s3 = "case o1 of None \<Rightarrow> s2 | Some e \<Rightarrow> reportError e s2"
        have 4: "R s2 ?s3"
          by (cases o1) (simp_all add: closed_refl [OF c] closed_report [OF c])
        have 5: "invokeElementReactions U n el ?s3 = Some (r, s')"
          using Suc.prems Some q Cons 2 by (cases o1) simp_all
        from closed_trans [OF c closed_trans [OF c closed_trans [OF c 1 3] 4] Suc.IH [OF 5]]
        show ?thesis .
      qed
    qed
  qed
qed

lemma invokeReactionsFrom_rel:
  assumes c: "moduleClosed R" and u: "pageRespects R U"
  shows "invokeReactionsFrom U n queue i s = Some (r, s') \<Longrightarrow> R s s'"
proof (induction n arbitrary: s i)
  case 0
  then show ?case by simp
next
  case (Suc n)
  show ?case
  proof (cases "i < length (queueOf queue s)")
    case False
    with Suc.prems show ?thesis by (simp add: closed_refl [OF c])
  next
    case True
    then obtain o1 s1 where 1:
      "invokeElementReactions U n (queueOf queue s ! i) s = Some (o1, s1)"
      using Suc.prems by (cases "invokeElementReactions U n (queueOf queue s ! i) s") auto
    have 2: "R s s1"
      by (rule invokeElementReactions_rel [OF c u 1])
    show ?thesis
    proof (cases o1)
      case None
      with Suc.prems True 1 have "invokeReactionsFrom U n queue (i + 1) s1 = Some (r, s')"
        by simp
      from closed_trans [OF c 2 Suc.IH [OF this]] show ?thesis .
    next
      case (Some e)
      with Suc.prems True 1 2 show ?thesis by simp
    qed
  qed
qed

text \<open>
The three relations used below are kept by the steps of the module.
\<close>

lemma enqueueElement_backup:
  "backupElementQueue (enqueueElementOnAppropriateElementQueue el s) =
     (if installed s \<and> customElementsReactionStack s = []
      then backupElementQueue s @ [el] else backupElementQueue s)"
  by (simp add: enqueueElementOnAppropriateElementQueue_def Let_def)

lemma enqueueElement_atRest:
  "atRest s \<Longrightarrow> atRest (enqueueElementOnAppropriateElementQueue el s)"
  by (simp add: enqueueElementOnAppropriateElementQueue_def Let_def atRest_def)

lemma enqueueElement_flag:
  "processingBackupElementQueue s \<Longrightarrow> atRest s \<Longrightarrow>
   processingBackupElementQueue (enqueueElementOnAppropriateElementQueue el s) \<and>
   microtasks (enqueueElementOnAppropriateElementQueue el s) = microtasks s"
  by (simp add: enqueueElementOnAppropriateElementQueue_def Let_def atRest_def)

lemma hasQueue_setPrivateState:
  "hasQueue (setPrivateState el es s) x =
     (if x = el then reactionQueue es \<noteq> None else hasQueue s x)"
  by (auto simp add: hasQueue_def)

lemma hasQueue_frame [simp]:
  "hasQueue (enqueueElementOnAppropriateElementQueue el s) = hasQueue s"
  "hasQueue (pushConstructionStack d e s) = hasQueue s"
  "hasQueue (popConstructionStack d s) = hasQueue s"
  "hasQueue (reportError err s) = hasQueue s"
  by (simp_all add: hasQueue_def fun_eq_iff)

lemma pending_setPrivateState:
  "pending (setPrivateState el es s) x =
     (if x = el then (\<exists>r rs. reactionQueue es = Some (r # rs)) else pending s x)"
  by (auto simp add: pending_def)

lemma pending_frame [simp]:
  "pending (enqueueElementOnAppropriateElementQueue el s) = pending s"
  "pending (pushConstructionStack d e s) = pending s"
  "pending (popConstructionStack d s) = pending s"
  "pending (reportError err s) = pending s"
  by (simp_all add: pending_def fun_eq_iff)

lemma dequeues_hasQueue:
  "dequeues es es' \<Longrightarrow> (reactionQueue es' \<noteq> None) = (reactionQueue es \<noteq> None)"
  by (auto simp add: dequeues_def split: option.splits)


lemma moduleClosed_backupGrows: "moduleClosed backupGrows"
  unfolding moduleClosed_def backupGrows_def
proof (intro conjI allI impI)
  fix el k args s
  obtain r s' where 1: "enqueueCallbackReaction el k args s = (r, s')"
    by (cases "enqueueCallbackReaction el k args s")
  from enqueueCallbackReaction_cases [OF 1]
  show "prefix (backupElementQueue s)
          (backupElementQueue (snd (enqueueCallbackReaction el k args s)))"
    using 1 by (auto simp add: enqueueElement_backup)
qed (auto simp add: pushConstructionStack_def popConstructionStack_def reportError_def)


lemma pendingDrains_frame [simp]:
  "pendingDrains (setPrivateState el es s) = pendingDrains s"
  "pendingDrains (pushConstructionStack d e s) = pendingDrains s"
  "pendingDrains (popConstructionStack d s) = pendingDrains s"
  "pendingDrains (reportError err s) = pendingDrains s"
  by (simp_all add: pendingDrains_def setPrivateState_def pushConstructionStack_def
      popConstructionStack_def reportError_def)

lemma flag_frame [simp]:
  "processingBackupElementQueue (pushConstructionStack d e s) = processingBackupElementQueue s"
  "processingBackupElementQueue (popConstructionStack d s) = processingBackupElementQueue s"
  "processingBackupElementQueue (reportError err s) = processingBackupElementQueue s"
  by (simp_all add: pushConstructionStack_def popConstructionStack_def reportError_def)

lemma atRest_frame [simp]:
  "atRest (setPrivateState el es s) = atRest s"
  "atRest (pushConstructionStack d e s) = atRest s"
  "atRest (popConstructionStack d s) = atRest s"
  "atRest (reportError err s) = atRest s"
  by (simp_all add: atRest_def)










text \<open>
  \<open>enqueueUpgradeReaction\<close>, the other way by which the page makes the module enqueue,
  is a step of the three relations as well.
\<close>

lemma enqueueUpgradeReaction_cases:
  "(\<exists>es. snd (enqueueUpgradeReaction el d s) = setPrivateState el es s \<and>
          reactionQueue es = None \<and> \<not> hasQueue s el \<and> priv s el \<noteq> None) \<or>
   (\<exists>es. snd (enqueueUpgradeReaction el d s)
            = enqueueElementOnAppropriateElementQueue el (setPrivateState el es s) \<and>
          reactionQueue es \<noteq> None)"
proof (cases "priv s el")
  case None
  let ?es = "\<lparr>customElementState = None, customElementDefinition = Some d,
              reactionQueue = Some [UpgradeReaction d], isValue = None\<rparr>"
  have "snd (enqueueUpgradeReaction el d s)
          = enqueueElementOnAppropriateElementQueue el (setPrivateState el ?es s)"
    using None by (simp add: enqueueUpgradeReaction_def)
  moreover have "reactionQueue ?es \<noteq> None"
    by simp
  ultimately show ?thesis
    by blast
next
  case (Some es)
  show ?thesis
  proof (cases "reactionQueue es")
    case None
    let ?es = "es\<lparr>customElementDefinition := Some d\<rparr>"
    have "snd (enqueueUpgradeReaction el d s) = setPrivateState el ?es s"
      using Some None by (simp add: enqueueUpgradeReaction_def)
    moreover have "reactionQueue ?es = None" "\<not> hasQueue s el" "priv s el \<noteq> None"
      using Some None by (simp_all add: hasQueue_def)
    ultimately show ?thesis
      by blast
  next
    case q: (Some q)
    let ?es = "es\<lparr>customElementDefinition := Some d,
                  reactionQueue := Some (q @ [UpgradeReaction d])\<rparr>"
    have "snd (enqueueUpgradeReaction el d s)
            = enqueueElementOnAppropriateElementQueue el (setPrivateState el ?es s)"
      using Some q by (simp add: enqueueUpgradeReaction_def)
    moreover have "reactionQueue ?es \<noteq> None"
      by simp
    ultimately show ?thesis
      by blast
  qed
qed

lemma backupGrows_enqueueUpgradeReaction:
  "backupGrows s (snd (enqueueUpgradeReaction el d s))"
  using enqueueUpgradeReaction_cases [of el d s]
  by (auto simp add: backupGrows_def enqueueElement_backup)

lemma keepsQueues_enqueueUpgradeReaction:
  "keepsQueues s (snd (enqueueUpgradeReaction el d s))"
  using enqueueUpgradeReaction_cases [of el d s]
  by (auto simp add: keepsQueues_def enqueueElement_backup hasQueue_setPrivateState
      split: if_splits)

lemma restStep_enqueueUpgradeReaction:
  "restStep s (snd (enqueueUpgradeReaction el d s))"
proof -
  from enqueueUpgradeReaction_cases [of el d s] show ?thesis
  proof (elim disjE exE conjE)
    fix es
    assume 1: "snd (enqueueUpgradeReaction el d s) = setPrivateState el es s"
      and 2: "reactionQueue es = None"
    show ?thesis
      unfolding 1 using 2 by (auto simp add: restStep_def pending_setPrivateState)
  next
    fix es
    assume 1: "snd (enqueueUpgradeReaction el d s)
            = enqueueElementOnAppropriateElementQueue el (setPrivateState el es s)"
    let ?s1 = "setPrivateState el es s"
    show ?thesis
      unfolding 1 restStep_def
    proof (intro impI)
      assume r: "atRest s"
      then have r1: "atRest ?s1" by simp
      have b: "backupElementQueue (enqueueElementOnAppropriateElementQueue el ?s1)
                 = backupElementQueue s @ [el]"
        using r by (simp add: enqueueElement_backup atRest_def)
      have f: "processingBackupElementQueue s \<longrightarrow>
           processingBackupElementQueue (enqueueElementOnAppropriateElementQueue el ?s1) \<and>
           pendingDrains (enqueueElementOnAppropriateElementQueue el ?s1) = pendingDrains s"
        using enqueueElement_flag [OF _ r1, of el]
        by (simp add: pendingDrains_def)
      have p: "\<forall>x. pending (enqueueElementOnAppropriateElementQueue el ?s1) x \<longrightarrow>
                 pending s x \<or> x = el"
        by (simp add: pending_setPrivateState)
      from enqueueElement_atRest [OF r1] b f p
      show "atRest (enqueueElementOnAppropriateElementQueue el ?s1) \<and>
        prefix (backupElementQueue s)
          (backupElementQueue (enqueueElementOnAppropriateElementQueue el ?s1)) \<and>
        (\<forall>x. pending (enqueueElementOnAppropriateElementQueue el ?s1) x \<longrightarrow>
           pending s x \<or>
           x \<in> set (drop (length (backupElementQueue s))
                  (backupElementQueue (enqueueElementOnAppropriateElementQueue el ?s1)))) \<and>
        (processingBackupElementQueue s \<longrightarrow>
           processingBackupElementQueue (enqueueElementOnAppropriateElementQueue el ?s1) \<and>
           pendingDrains (enqueueElementOnAppropriateElementQueue el ?s1) = pendingDrains s)"
        by auto
    qed
  qed
qed


lemma chattyPage_backupGrows: "pageRespects backupGrows chattyPage"
  by (simp add: pageRespects_def chattyPage_def plainPage_def
      closed_refl [OF moduleClosed_backupGrows] closed_enqueue [OF moduleClosed_backupGrows])


section \<open>Properties of the invocation of reactions\<close>






text \<open>
  The module puts on its element queues only elements that have a reaction queue, so
  the queue it hands to \<open>invokeReactions\<close> is one of such elements.
\<close>

lemma queuedElements_setPrivateState [simp]:
  "queuedElements (setPrivateState el es s) = queuedElements s"
  by (simp add: queuedElements_def)

lemma enqueueElement_queues:
  "queuedElements (enqueueElementOnAppropriateElementQueue el s)
     \<subseteq> insert el (queuedElements s)"
proof (cases "installed s")
  case False
  then show ?thesis
    by (auto simp add: enqueueElementOnAppropriateElementQueue_def)
next
  case True
  show ?thesis
  proof (cases "customElementsReactionStack s = []")
    case True
    with \<open>installed s\<close> show ?thesis
      by (auto simp add: queuedElements_def enqueueElementOnAppropriateElementQueue_def Let_def)
  next
    case False
    let ?st = "customElementsReactionStack s"
    have "?st = butlast ?st @ [last ?st]"
      using False by simp
    then have "set (concat ?st) = set (concat (butlast ?st)) \<union> set (last ?st)"
      by (metis concat.simps(1,2) concat_append append_Nil2 set_append)
    moreover have "enqueueElementOnAppropriateElementQueue el s
                     = s\<lparr>customElementsReactionStack := butlast ?st @ [last ?st @ [el]]\<rparr>"
      using False \<open>installed s\<close> by (simp add: enqueueElementOnAppropriateElementQueue_def)
    ultimately show ?thesis
      by (simp add: queuedElements_def)
  qed
qed

lemma everyQueuedHasQueue_step:
  assumes "everyQueuedHasQueue s" "reactionQueue es \<noteq> None"
  shows "everyQueuedHasQueue
           (enqueueElementOnAppropriateElementQueue el (setPrivateState el es s))"
  unfolding everyQueuedHasQueue_def
proof
  fix x
  assume "x \<in> queuedElements
                (enqueueElementOnAppropriateElementQueue el (setPrivateState el es s))"
  with enqueueElement_queues [of el "setPrivateState el es s"]
  have "x = el \<or> x \<in> queuedElements s"
    by auto
  with assms show "hasQueue
           (enqueueElementOnAppropriateElementQueue el (setPrivateState el es s)) x"
    by (auto simp add: everyQueuedHasQueue_def hasQueue_setPrivateState)
qed

lemma everyQueuedHasQueue_enqueueCallbackReaction:
  assumes "everyQueuedHasQueue s"
  shows "everyQueuedHasQueue (snd (enqueueCallbackReaction el k args s))"
proof -
  obtain r s' where 1: "enqueueCallbackReaction el k args s = (r, s')"
    by (cases "enqueueCallbackReaction el k args s")
  from enqueueCallbackReaction_cases [OF 1] show ?thesis
  proof
    assume "s' = s"
    with 1 assms show ?thesis by simp
  next
    assume "\<exists>es cb. priv s el = Some es \<and>
            s' = enqueueElementOnAppropriateElementQueue el
                   (setPrivateState el
                      (es\<lparr>reactionQueue :=
                            Some (queueOrEmpty es @ [CallbackReaction cb args])\<rparr>) s)"
    with 1 everyQueuedHasQueue_step [OF assms] show ?thesis
      by auto
  qed
qed

lemma everyQueuedHasQueue_enqueueUpgradeReaction:
  assumes "everyQueuedHasQueue s"
  shows "everyQueuedHasQueue (snd (enqueueUpgradeReaction el d s))"
proof (cases "priv s el")
  case None
  with everyQueuedHasQueue_step [OF assms] show ?thesis
    by (simp add: enqueueUpgradeReaction_def)
next
  case (Some es)
  show ?thesis
  proof (cases "reactionQueue es")
    case None
    with Some assms show ?thesis
      by (auto simp add: enqueueUpgradeReaction_def everyQueuedHasQueue_def
          hasQueue_setPrivateState hasQueue_def)
  next
    case q: (Some q)
    with Some everyQueuedHasQueue_step [OF assms] show ?thesis
      by (simp add: enqueueUpgradeReaction_def)
  qed
qed

lemma everyQueuedHasQueue_installedState: "everyQueuedHasQueue installedState"
  by (simp add: everyQueuedHasQueue_def queuedElements_def installedState_def)

lemma everyQueuedHasQueue_backup:
  assumes "everyQueuedHasQueue s"
  shows "queued BackupQueue s"
  using assms by (simp add: queued_def everyQueuedHasQueue_def queuedElements_def queueOf_def)

lemma everyQueuedHasQueue_popped:
  assumes "everyQueuedHasQueue s" "customElementsReactionStack s \<noteq> []"
  shows "queued (PoppedQueue (last (customElementsReactionStack s)))
           (s\<lparr>customElementsReactionStack := butlast (customElementsReactionStack s)\<rparr>)"
  unfolding queued_def
proof
  fix x
  assume "x \<in> set (queueOf (PoppedQueue (last (customElementsReactionStack s)))
                  (s\<lparr>customElementsReactionStack := butlast (customElementsReactionStack s)\<rparr>))
              \<union> set (backupElementQueue
                  (s\<lparr>customElementsReactionStack := butlast (customElementsReactionStack s)\<rparr>))"
  then have "x \<in> set (last (customElementsReactionStack s)) \<or> x \<in> set (backupElementQueue s)"
    by (simp add: queueOf_def)
  moreover have "last (customElementsReactionStack s) \<in> set (customElementsReactionStack s)"
    using assms(2) by simp
  ultimately have "x \<in> queuedElements s"
    by (auto simp add: queuedElements_def)
  with assms(1) have "hasQueue s x"
    by (simp add: everyQueuedHasQueue_def)
  then show "hasQueue (s\<lparr>customElementsReactionStack := butlast (customElementsReactionStack s)\<rparr>) x"
    by (simp add: hasQueue_def)
qed

















lemma bareStates_frame [simp]:
  "bareStates (reportError e s) = bareStates s"
  "bareStates (pushConstructionStack d x s) = bareStates s"
  "bareStates (popConstructionStack d s) = bareStates s"
  by (simp_all add: bareStates_def reportError_def pushConstructionStack_def
      popConstructionStack_def)

lemma batchLoad_frame [simp]:
  "batchLoad (reportError e s) = batchLoad s"
  "batchLoad (pushConstructionStack d x s) = batchLoad s"
  "batchLoad (popConstructionStack d s) = batchLoad s"
  by (simp_all add: batchLoad_def queueLength_def)










section \<open>Properties of the backup element queue\<close>

lemma invokeElementReactions_idle:
  assumes "priv s el = Some es" "reactionQueue es = Some []"
  shows "invokeElementReactions U (Suc n) el s = Some (None, s)"
  using assms by simp

lemma invokeReactionsFrom_idle:
  assumes "\<forall>el \<in> set (backupElementQueue s). \<exists>es. priv s el = Some es \<and> reactionQueue es = Some []"
  shows "length (backupElementQueue s) - i < n \<Longrightarrow>
         invokeReactionsFrom U n BackupQueue i s = Some (None, s)"
proof (induction n arbitrary: i)
  case 0
  then show ?case by simp
next
  case (Suc n)
  show ?case
  proof (cases "i < length (backupElementQueue s)")
    case False
    then show ?thesis by (simp add: queueOf_def)
  next
    case True
    then obtain es where es: "priv s (backupElementQueue s ! i) = Some es"
      "reactionQueue es = Some []"
      using assms by (meson nth_mem)
    from True Suc.prems obtain m where m: "n = Suc m"
      by (cases n) auto
    have "length (backupElementQueue s) - (i + 1) < n"
      using True Suc.prems by arith
    from Suc.IH [OF this] True show ?thesis
      using invokeElementReactions_idle [OF es, of U m] m by (simp add: queueOf_def)
  qed
qed

text \<open>
  C9. Let the code of the page only ever add to the backup element queue. Then
  \<open>invokeReactions\<close> and the microtask that drains the backup element queue leave every
  element of that queue where it was: the queue before is a prefix of the queue after.
  When all the elements of the queue have empty reaction queues, the microtask walks the
  whole queue once more (it needs more steps than the queue has elements) and returns
  with the queue as it was.
\<close>

theorem backupElementQueue_never_emptied:
  "pageRespects backupGrows U \<Longrightarrow>
   (\<forall>r s'. invokeReactions U n queue s = Some (r, s') \<longrightarrow>
      prefix (backupElementQueue s) (backupElementQueue s')) \<and>
   (\<forall>r s'. drainBackupElementQueue U n s = Some (r, s') \<longrightarrow>
      prefix (backupElementQueue s) (backupElementQueue s')) \<and>
   ((\<forall>el \<in> set (backupElementQueue s).
       \<exists>es. priv s el = Some es \<and> reactionQueue es = Some []) \<and>
    length (backupElementQueue s) < n \<longrightarrow>
      drainBackupElementQueue U n s = Some (None, s\<lparr>processingBackupElementQueue := False\<rparr>))"
proof (intro conjI allI impI)
  fix r s'
  assume u: "pageRespects backupGrows U" and "invokeReactions U n queue s = Some (r, s')"
  then have "invokeReactionsFrom U n queue 0 s = Some (r, s')"
    by (simp add: invokeReactions_def)
  from invokeReactionsFrom_rel [OF moduleClosed_backupGrows u this]
  show "prefix (backupElementQueue s) (backupElementQueue s')"
    by (simp add: backupGrows_def)
next
  fix r s'
  assume u: "pageRespects backupGrows U" and d: "drainBackupElementQueue U n s = Some (r, s')"
  then obtain r1 s1 where 1: "invokeReactionsFrom U n BackupQueue 0 s = Some (r1, s1)"
    and 2: "backupElementQueue s' = backupElementQueue s1"
    by (auto simp add: drainBackupElementQueue_def invokeReactions_def
        split: option.splits prod.splits)
  from invokeReactionsFrom_rel [OF moduleClosed_backupGrows u 1] 2
  show "prefix (backupElementQueue s) (backupElementQueue s')"
    by (simp add: backupGrows_def)
next
  assume "(\<forall>el \<in> set (backupElementQueue s).
       \<exists>es. priv s el = Some es \<and> reactionQueue es = Some []) \<and>
    length (backupElementQueue s) < n"
  then show "drainBackupElementQueue U n s =
      Some (None, s\<lparr>processingBackupElementQueue := False\<rparr>)"
    using invokeReactionsFrom_idle [of s 0 n U]
    by (simp add: drainBackupElementQueue_def invokeReactions_def)
qed

lemma drain_chatty: "map_option fst (drainBackupElementQueue chattyPage 5 drainState) = Some None"
  by code_simp

lemma drain_chatty_backup: "backupElementQueue drainedState = [1, 2, 3]"
  unfolding drainedState_def by code_simp

lemma drain_chatty_result:
  "drainBackupElementQueue chattyPage 5 drainState = Some (None, drainedState)"
  using drain_chatty
  by (cases "drainBackupElementQueue chattyPage 5 drainState") (auto simp add: drainedState_def)

lemma idleState_idle:
  "\<forall>el \<in> set (backupElementQueue idleState).
      \<exists>es. priv idleState el = Some es \<and> reactionQueue es = Some []"
  by (simp add: idleState_def customRecord_def)

theorem backupElementQueue_never_emptied_witness:
  "pageRespects backupGrows chattyPage \<and>
   drainBackupElementQueue chattyPage 5 drainState = Some (None, drainedState) \<and>
   backupElementQueue drainState = [1, 2] \<and>
   backupElementQueue drainedState = [1, 2, 3] \<and>
   prefix (backupElementQueue drainState) (backupElementQueue drainedState) \<and>
   length (backupElementQueue idleState) < 3 \<and>
   drainBackupElementQueue chattyPage 3 idleState
     = Some (None, idleState\<lparr>processingBackupElementQueue := False\<rparr>) \<and>
   backupElementQueue (idleState\<lparr>processingBackupElementQueue := False\<rparr>) = [1, 1]"
  using backupElementQueue_never_emptied [OF chattyPage_backupGrows, of 5 BackupQueue drainState]
    backupElementQueue_never_emptied [OF chattyPage_backupGrows, of 3 BackupQueue idleState]
    chattyPage_backupGrows drain_chatty_result drain_chatty_backup idleState_idle
  by (simp add: drainState_def idleState_def)







text \<open>
  The page whose callback 1 makes the module enqueue a reaction for element 3 has a
  variant: the weight of the reactions that wait.
\<close>

lemma weightOf_frame [simp]:
  "weightOf (enqueueElementOnAppropriateElementQueue el s) = weightOf s"
  "weightOf (reportError e s) = weightOf s"
  by (simp_all add: weightOf_def fun_eq_iff)


lemma chattyStates_frame [simp]:
  "chattyStates (enqueueElementOnAppropriateElementQueue el s) = chattyStates s"
  "chattyStates (reportError e s) = chattyStates s"
  by (simp_all add: chattyStates_def)












end
